theory Spec2Isabelle
  imports Main "HOL-Library.Word" "HOL-Library.AList"
begin

section \<open>Backend descriptor (package beaconnode)\<close>

text \<open>
  Go's \<^verbatim>\<open>int64\<close> counters are 64-bit words: \<open>+\<close> wraps around and \<open>sint\<close> reads the
  two's complement value that the Go program observes. The atomic loads, stores and adds
  of the source are single steps of the sequential model. \<^verbatim>\<open>Priority\<close> and
  \<^verbatim>\<open>OriginalPriority\<close> are Go \<^verbatim>\<open>int\<close>s that are only ever assigned (a list index, a list
  length, another priority or 0), never computed with, so they are modelled as \<open>int\<close>.
  The reverse proxy, the mutex and the time stamp of the struct carry no logic of their own
  and are left out.
\<close>

type_synonym int64 = "64 word"

record BeaconNode =
  Name :: string
  URL :: string
  ConsecutiveErrors :: int64
  ConsecutiveSuccesses :: int64
  TotalFailures :: int64
  Requests :: int64
  Priority :: int
  OriginalPriority :: int

text \<open>\<^verbatim>\<open>NewBeaconNode\<close>, after the URL has been parsed: every field that the struct literal
  does not mention has Go's zero value.\<close>

definition NewBeaconNode :: "string \<Rightarrow> string \<Rightarrow> BeaconNode" where
  "NewBeaconNode name url =
     \<lparr>Name = name, URL = url, ConsecutiveErrors = 0, ConsecutiveSuccesses = 0,
      TotalFailures = 0, Requests = 0, Priority = 0, OriginalPriority = 0\<rparr>"

definition IsHealthy :: "BeaconNode \<Rightarrow> int \<Rightarrow> bool" where
  "IsHealthy bn errorThreshold \<longleftrightarrow> sint (ConsecutiveErrors bn) < errorThreshold"

definition ResetErrors :: "BeaconNode \<Rightarrow> BeaconNode" where
  "ResetErrors bn = bn\<lparr>ConsecutiveErrors := 0\<rparr>"

definition IncrementError :: "BeaconNode \<Rightarrow> BeaconNode" where
  "IncrementError bn =
     bn\<lparr>ConsecutiveErrors := ConsecutiveErrors bn + 1,
        TotalFailures := TotalFailures bn + 1,
        ConsecutiveSuccesses := 0\<rparr>"

definition IncrementSuccess :: "BeaconNode \<Rightarrow> BeaconNode" where
  "IncrementSuccess bn = bn\<lparr>ConsecutiveSuccesses := ConsecutiveSuccesses bn + 1\<rparr>"

definition ResetSuccesses :: "BeaconNode \<Rightarrow> BeaconNode" where
  "ResetSuccesses bn = bn\<lparr>ConsecutiveSuccesses := 0\<rparr>"

definition GetConsecutiveSuccesses :: "BeaconNode \<Rightarrow> int" where
  "GetConsecutiveSuccesses bn = sint (ConsecutiveSuccesses bn)"

definition IncrementRequests :: "BeaconNode \<Rightarrow> BeaconNode" where
  "IncrementRequests bn = bn\<lparr>Requests := Requests bn + 1\<rparr>"

definition SetPriority :: "int \<Rightarrow> BeaconNode \<Rightarrow> BeaconNode" where
  "SetPriority p bn = bn\<lparr>Priority := p\<rparr>"

definition GetPriority :: "BeaconNode \<Rightarrow> int" where
  "GetPriority bn = Priority bn"

definition IsPrimary :: "BeaconNode \<Rightarrow> bool" where
  "IsPrimary bn \<longleftrightarrow> GetPriority bn = 0"

definition IsBackup :: "BeaconNode \<Rightarrow> bool" where
  "IsBackup bn \<longleftrightarrow> GetPriority bn > 0"

subsection \<open>Sequences of counter operations\<close>

datatype counter_op = OpIncrementError | OpIncrementSuccess | OpResetErrors | OpResetSuccesses

fun apply_counter_op :: "BeaconNode \<Rightarrow> counter_op \<Rightarrow> BeaconNode" where
  "apply_counter_op bn OpIncrementError = IncrementError bn"
| "apply_counter_op bn OpIncrementSuccess = IncrementSuccess bn"
| "apply_counter_op bn OpResetErrors = ResetErrors bn"
| "apply_counter_op bn OpResetSuccesses = ResetSuccesses bn"

definition run_counter_ops :: "BeaconNode \<Rightarrow> counter_op list \<Rightarrow> BeaconNode" where
  "run_counter_ops bn ops = foldl apply_counter_op bn ops"

text \<open>The two observable counters, as the signed values a Go caller reads.\<close>

definition errors_of :: "BeaconNode \<Rightarrow> int" where
  "errors_of bn = sint (ConsecutiveErrors bn)"

definition successes_of :: "BeaconNode \<Rightarrow> int" where
  "successes_of bn = sint (ConsecutiveSuccesses bn)"

definition both_positive :: "BeaconNode \<Rightarrow> bool" where
  "both_positive bn \<longleftrightarrow> 0 < errors_of bn \<and> 0 < successes_of bn"

section \<open>Health prober (package beaconnode)\<close>

text \<open>
  One probe is \<^verbatim>\<open>client.Get(endpoint)\<close>, then \<^verbatim>\<open>io.ReadAll(resp.Body)\<close>, then
  \<^verbatim>\<open>json.Unmarshal(body, &syncResp)\<close>. The network and the JSON decoder belong to Go's
  standard library: what the network did is the input \<open>get_result\<close>, and the decoder is the
  parameter \<open>unmarshal\<close>, which yields the decoded struct or \<open>None\<close> when it returns an
  error.
\<close>

record SyncingResponse =
  IsSyncing :: bool
  SyncDistance :: string

datatype body_read = ReadFailed | ReadOk string

datatype get_result = GetFailed | GetResponse int body_read

text \<open>\<^verbatim>\<open>HealthCheckError\<close>; \<open>HasErr\<close> tells whether the wrapped \<^verbatim>\<open>Err\<close> is set.\<close>

record HealthCheckError =
  Reason :: string
  StatusCode :: int
  ErrIsSyncing :: bool
  ErrSyncDistance :: string
  HasErr :: bool

definition emptyHealthCheckError :: HealthCheckError where
  "emptyHealthCheckError =
     \<lparr>Reason = [], StatusCode = 0, ErrIsSyncing = False, ErrSyncDistance = [], HasErr = False\<rparr>"

definition StatusOK :: int where
  "StatusOK = 200"

definition HealthCheck ::
  "(string \<Rightarrow> SyncingResponse option) \<Rightarrow> get_result \<Rightarrow> bool \<times> HealthCheckError option" where
  "HealthCheck unmarshal res =
     (case res of
        GetFailed \<Rightarrow>
          (False, Some (emptyHealthCheckError\<lparr>Reason := ''request_failed'', HasErr := True\<rparr>))
      | GetResponse code rd \<Rightarrow>
          if code \<noteq> StatusOK then
            (False, Some (emptyHealthCheckError\<lparr>Reason := ''non_200_status'', StatusCode := code\<rparr>))
          else
            (case rd of
               ReadFailed \<Rightarrow>
                 (False, Some (emptyHealthCheckError\<lparr>Reason := ''read_body_failed'', HasErr := True\<rparr>))
             | ReadOk body \<Rightarrow>
                 (case unmarshal body of
                    None \<Rightarrow>
                      (False,
                       Some (emptyHealthCheckError\<lparr>Reason := ''json_parse_failed'', HasErr := True\<rparr>))
                  | Some syncResp \<Rightarrow>
                      let isHealthy = (\<not> IsSyncing syncResp \<and> SyncDistance syncResp = ''0'') in
                      if \<not> isHealthy then
                        let reason =
                          (if IsSyncing syncResp then ''is_syncing''
                           else if SyncDistance syncResp \<noteq> ''0'' then ''sync_distance_not_zero''
                           else ''not_synced'')
                        in (False,
                            Some (emptyHealthCheckError\<lparr>Reason := reason,
                              ErrIsSyncing := IsSyncing syncResp,
                              ErrSyncDistance := SyncDistance syncResp\<rparr>))
                      else (True, None))))"

text \<open>The errors of \<^verbatim>\<open>CheckSyncStatus\<close> are \<^verbatim>\<open>fmt.Errorf\<close> values; the datatype keeps which
  format was used and the values formatted into it.\<close>

datatype sync_error =
    RequestFailed
  | Non200StatusCode int
  | ReadBodyFailed
  | ParseJSONFailed
  | NotSynced bool string

definition CheckSyncStatus ::
  "(string \<Rightarrow> SyncingResponse option) \<Rightarrow> get_result \<Rightarrow> bool \<times> sync_error option" where
  "CheckSyncStatus unmarshal res =
     (case res of
        GetFailed \<Rightarrow> (False, Some RequestFailed)
      | GetResponse code rd \<Rightarrow>
          if code \<noteq> StatusOK then (False, Some (Non200StatusCode code))
          else
            (case rd of
               ReadFailed \<Rightarrow> (False, Some ReadBodyFailed)
             | ReadOk body \<Rightarrow>
                 (case unmarshal body of
                    None \<Rightarrow> (False, Some ParseJSONFailed)
                  | Some syncResp \<Rightarrow>
                      let isHealthy = (\<not> IsSyncing syncResp \<and> SyncDistance syncResp = ''0'') in
                      if \<not> isHealthy then
                        (False, Some (NotSynced (IsSyncing syncResp) (SyncDistance syncResp)))
                      else (True, None))))"

text \<open>The specification's sentence, for comparison with the two functions above: a backend
  is healthy iff the HTTP status is 200 and the JSON parses and \<^verbatim>\<open>is_syncing == false\<close> and
  \<^verbatim>\<open>sync_distance == "0"\<close>.\<close>

definition spec_healthy :: "(string \<Rightarrow> SyncingResponse option) \<Rightarrow> get_result \<Rightarrow> bool" where
  "spec_healthy unmarshal res \<longleftrightarrow>
     (case res of
        GetFailed \<Rightarrow> False
      | GetResponse code rd \<Rightarrow>
          code = 200 \<and>
          (case rd of
             ReadFailed \<Rightarrow> False
           | ReadOk body \<Rightarrow>
               (case unmarshal body of
                  None \<Rightarrow> False
                | Some syncResp \<Rightarrow> IsSyncing syncResp = False \<and> SyncDistance syncResp = ''0'')))"

definition failure_tags :: "string list" where
  "failure_tags =
     [''request_failed'', ''non_200_status'', ''read_body_failed'', ''json_parse_failed'',
      ''is_syncing'', ''sync_distance_not_zero'']"

text \<open>A decoder for the examples: it knows the two bodies that the repository's tests serve.\<close>

definition example_unmarshal :: "string \<Rightarrow> SyncingResponse option" where
  "example_unmarshal body =
     (if body = ''{\"data\":{\"is_syncing\":false,\"sync_distance\":\"0\"}}''
        then Some \<lparr>IsSyncing = False, SyncDistance = ''0''\<rparr>
      else if body = ''{\"data\":{\"is_syncing\":true,\"sync_distance\":\"100\"}}''
        then Some \<lparr>IsSyncing = True, SyncDistance = ''100''\<rparr>
      else None)"

section \<open>Load balancer state (package loadbalancer)\<close>

text \<open>
  \<^verbatim>\<open>lb.nodes\<close> holds one pointer to every backend, so the list of structs is the store and a
  \<^verbatim>\<open>*BeaconNode\<close> is an index into it. \<^verbatim>\<open>lb.healthyNodes\<close> is a list of such pointers: a
  change of a node's priority or counters is seen through every list that refers to it.
  Only the configuration options that the modelled functions read are kept. Durations are
  nanoseconds. Logging and metric emission change no state of the balancer and are left
  out; the locks are taken and released inside one step of the sequential model.
\<close>

record Config =
  MaxRetries :: int
  RequestTimeout :: int
  ErrorThreshold :: int
  SuccessfulChecksForFailback :: int

record LoadBalancer =
  nodes :: "BeaconNode list"
  config :: Config
  healthyNodes :: "nat list"

definition update_node :: "nat \<Rightarrow> (BeaconNode \<Rightarrow> BeaconNode) \<Rightarrow> LoadBalancer \<Rightarrow> LoadBalancer" where
  "update_node n f lb = lb\<lparr>nodes := (nodes lb)[n := f (nodes lb ! n)]\<rparr>"

definition HTTPStatusSuccessMin :: int where "HTTPStatusSuccessMin = 200"
definition HTTPStatusSuccessMax :: int where "HTTPStatusSuccessMax = 400"
definition HTTPStatusClientErrorMin :: int where "HTTPStatusClientErrorMin = 400"
definition HTTPStatusServerErrorMin :: int where "HTTPStatusServerErrorMin = 500"

definition StatusForbidden :: int where "StatusForbidden = 403"
definition StatusBadGateway :: int where "StatusBadGateway = 502"
definition StatusServiceUnavailable :: int where "StatusServiceUnavailable = 503"
definition StatusGatewayTimeout :: int where "StatusGatewayTimeout = 504"

subsection \<open>Construction\<close>

text \<open>\<^verbatim>\<open>New\<close>: a node configuration is a name and a URL. \<open>parse_ok\<close> says whether
  \<^verbatim>\<open>url.Parse\<close> accepts a URL (a node whose URL it rejects is skipped, and its index is not
  reused), \<open>metrics_ok\<close> whether the metrics client could be created.\<close>

type_synonym NodeConfig = "string \<times> string"

datatype new_error = NoBeaconNode | NoValidBeaconNode | MetricsClientFailed

fun New_nodes :: "(string \<Rightarrow> bool) \<Rightarrow> nat \<Rightarrow> NodeConfig list \<Rightarrow> BeaconNode list" where
  "New_nodes parse_ok i [] = []"
| "New_nodes parse_ok i ((name, url) # rest) =
     (if parse_ok url
      then (NewBeaconNode name url)\<lparr>Priority := int i, OriginalPriority := int i\<rparr>
             # New_nodes parse_ok (Suc i) rest
      else New_nodes parse_ok (Suc i) rest)"

definition New ::
  "(string \<Rightarrow> bool) \<Rightarrow> bool \<Rightarrow> Config \<Rightarrow> NodeConfig list \<Rightarrow> new_error + LoadBalancer" where
  "New parse_ok metrics_ok cfg allNodes =
     (if allNodes = [] then Inl NoBeaconNode
      else let ns = New_nodes parse_ok 0 allNodes in
        if ns = [] then Inl NoValidBeaconNode
        else if \<not> metrics_ok then Inl MetricsClientFailed
        else Inr \<lparr>nodes = ns, config = cfg, healthyNodes = []\<rparr>)"

definition GetNodes :: "LoadBalancer \<Rightarrow> BeaconNode list" where
  "GetNodes lb = nodes lb"

definition GetHealthyNodes :: "LoadBalancer \<Rightarrow> nat list" where
  "GetHealthyNodes lb = healthyNodes lb"

section \<open>Health-check scheduler\<close>

text \<open>
  The probes of one batch run concurrently and their results are read from a channel in
  the order in which the probes finish. \<open>finish\<close> gives each node the time at which its
  result is sent, so the batch arrives sorted by \<open>finish\<close>; \<open>probe\<close> gives the answer of
  the network for each node.
\<close>

definition arrival_order :: "(nat \<Rightarrow> nat) \<Rightarrow> nat list \<Rightarrow> nat list" where
  "arrival_order finish ns = sort_key finish ns"

subsection \<open>Startup\<close>

datatype startup_error = NoHealthyNodes nat

text \<open>\<^verbatim>\<open>sort.Slice\<close> orders the healthy nodes by \<^verbatim>\<open>GetPriority\<close>. It is not stable, but at
  startup the priorities are pairwise different, so the sorted order is unique.\<close>

definition StartupHealthCheck ::
  "(string \<Rightarrow> SyncingResponse option) \<Rightarrow> (nat \<Rightarrow> get_result) \<Rightarrow> (nat \<Rightarrow> nat) \<Rightarrow> LoadBalancer
     \<Rightarrow> LoadBalancer \<times> startup_error option" where
  "StartupHealthCheck unmarshal probe finish lb =
     (let results = arrival_order finish [0 ..< length (nodes lb)];
          healthy = filter (\<lambda>n. fst (CheckSyncStatus unmarshal (probe n))) results;
          sorted_healthy = sort_key (\<lambda>n. GetPriority (nodes lb ! n)) healthy;
          lb' = lb\<lparr>healthyNodes := sorted_healthy\<rparr>
      in if length sorted_healthy = 0 then (lb', Some (NoHealthyNodes (length (nodes lb))))
         else (lb', None))"

subsection \<open>Periodic pass\<close>

text \<open>
  \<^verbatim>\<open>performHealthCheck\<close> is one long function. Its loops and blocks are defined one by
  one, in the order in which they run: \<open>collect_step\<close> is the body of the loop over the
  results channel; \<open>failback\<close> is the failback decision (original primary, current primary,
  the two priority changes); \<open>restore_step\<close> is the body of the loop that restores original
  priorities; \<open>rebuild\<close> builds the new healthy set and contains the promotion
  (\<open>promote\<close>, with \<open>lowest_step\<close> the body of its search for the lowest priority).
  \<open>maxInt\<close> is \<^verbatim>\<open>int(^uint(0) >> 1)\<close> on a 64-bit platform.
\<close>

definition collect_step ::
  "(nat \<Rightarrow> bool) \<Rightarrow> LoadBalancer \<times> nat list \<Rightarrow> nat \<Rightarrow> LoadBalancer \<times> nat list" where
  "collect_step isHealthy acc n =
     (case acc of (lb, newHealthyBackups) \<Rightarrow>
        if isHealthy n
        then (update_node n (\<lambda>bn. ResetErrors (IncrementSuccess bn)) lb, newHealthyBackups @ [n])
        else (update_node n ResetSuccesses lb, newHealthyBackups))"

definition restore_step :: "LoadBalancer \<Rightarrow> nat \<Rightarrow> LoadBalancer" where
  "restore_step lb n =
     (if GetPriority (nodes lb ! n) \<noteq> OriginalPriority (nodes lb ! n)
      then update_node n (SetPriority (OriginalPriority (nodes lb ! n))) lb
      else lb)"

definition maxInt :: int where
  "maxInt = 2 ^ 63 - 1"

definition lowest_step :: "LoadBalancer \<Rightarrow> int \<times> nat option \<Rightarrow> nat \<Rightarrow> int \<times> nat option" where
  "lowest_step lb acc n =
     (case acc of (lowestPriority, nodeToPromote) \<Rightarrow>
        if GetPriority (nodes lb ! n) < lowestPriority \<and> GetPriority (nodes lb ! n) > 0
        then (GetPriority (nodes lb ! n), Some n)
        else (lowestPriority, nodeToPromote))"

definition find_primary :: "LoadBalancer \<Rightarrow> nat option" where
  "find_primary lb = List.find (\<lambda>n. IsPrimary (nodes lb ! n)) [0 ..< length (nodes lb)]"

definition find_original_primary :: "LoadBalancer \<Rightarrow> nat list \<Rightarrow> nat option" where
  "find_original_primary lb ns = List.find (\<lambda>n. OriginalPriority (nodes lb ! n) = 0) ns"

definition failback :: "LoadBalancer \<Rightarrow> nat list \<Rightarrow> LoadBalancer" where
  "failback lb newHealthyBackups =
     (case find_original_primary lb newHealthyBackups of
        None \<Rightarrow> lb
      | Some originalPrimary \<Rightarrow>
          let shouldFailback =
                (GetConsecutiveSuccesses (nodes lb ! originalPrimary)
                   \<ge> SuccessfulChecksForFailback (config lb))
          in (case find_primary lb of
                None \<Rightarrow> lb
              | Some currentPrimary \<Rightarrow>
                  if shouldFailback
                     \<and> Name (nodes lb ! currentPrimary) \<noteq> Name (nodes lb ! originalPrimary)
                  then
                    let lb1 = update_node originalPrimary (SetPriority 0) lb;
                        lb2 = update_node originalPrimary ResetErrors lb1
                    in update_node currentPrimary
                         (SetPriority (OriginalPriority (nodes lb2 ! currentPrimary))) lb2
                  else lb))"

definition promote :: "LoadBalancer \<Rightarrow> nat list \<Rightarrow> LoadBalancer" where
  "promote lb newHealthyBackups =
     (let nodeToPromote =
            (case find_original_primary lb newHealthyBackups of
               Some n \<Rightarrow> Some n
             | None \<Rightarrow> snd (foldl (lowest_step lb) (maxInt, None) newHealthyBackups))
      in case nodeToPromote of
           None \<Rightarrow> lb
         | Some n \<Rightarrow> update_node n ResetErrors (update_node n (SetPriority 0) lb))"

definition rebuild :: "LoadBalancer \<Rightarrow> nat list \<Rightarrow> LoadBalancer" where
  "rebuild lb newHealthyBackups =
     (let currentPrimary = find_primary lb;
          updatedHealthyNodes =
            (case currentPrimary of
               None \<Rightarrow> []
             | Some node \<Rightarrow>
                 if list_ex (\<lambda>healthyNode. Name (nodes lb ! healthyNode) = Name (nodes lb ! node))
                      (healthyNodes lb)
                 then [node] else []);
          lb1 = (if currentPrimary = None \<and> length newHealthyBackups > 0
                 then promote lb newHealthyBackups else lb)
      in lb1\<lparr>healthyNodes := updatedHealthyNodes @ newHealthyBackups\<rparr>)"

definition performHealthCheck ::
  "(string \<Rightarrow> SyncingResponse option) \<Rightarrow> (nat \<Rightarrow> get_result) \<Rightarrow> (nat \<Rightarrow> nat) \<Rightarrow> LoadBalancer
     \<Rightarrow> LoadBalancer" where
  "performHealthCheck unmarshal probe finish lb =
     (let backupNodes = filter (\<lambda>n. IsBackup (nodes lb ! n)) [0 ..< length (nodes lb)]
      in if length backupNodes = 0 then lb
         else
           let results = arrival_order finish backupNodes;
               collected = foldl (collect_step (\<lambda>n. fst (HealthCheck unmarshal (probe n))))
                             (lb, []) results;
               lb1 = fst collected;
               newHealthyBackups = snd collected;
               lb2 = failback lb1 newHealthyBackups;
               lb3 = foldl restore_step lb2 newHealthyBackups
           in rebuild lb3 newHealthyBackups)"

section \<open>Routing engine\<close>

subsection \<open>Recording response writer\<close>

record responseRecorder =
  statusCode :: int
  header :: "(string \<times> string list) list"
  body :: string

definition emptyRecorder :: responseRecorder where
  "emptyRecorder = \<lparr>statusCode = 0, header = [], body = []\<rparr>"

definition WriteHeader :: "int \<Rightarrow> responseRecorder \<Rightarrow> responseRecorder" where
  "WriteHeader code rr = (if statusCode rr = 0 then rr\<lparr>statusCode := code\<rparr> else rr)"

definition Write :: "string \<Rightarrow> responseRecorder \<Rightarrow> responseRecorder" where
  "Write data rr =
     (let rr1 = (if statusCode rr = 0 then rr\<lparr>statusCode := 200\<rparr> else rr)
      in rr1\<lparr>body := body rr1 @ data\<rparr>)"

text \<open>What a backend's reverse proxy does with the writer it is handed: it sets headers
  through \<^verbatim>\<open>Header()\<close>, and calls \<^verbatim>\<open>WriteHeader\<close> and \<^verbatim>\<open>Write\<close>.\<close>

datatype writer_call = SetHeader string "string list" | CallWriteHeader int | CallWrite string

fun apply_writer_call :: "responseRecorder \<Rightarrow> writer_call \<Rightarrow> responseRecorder" where
  "apply_writer_call rr (SetHeader k v) = rr\<lparr>header := AList.update k v (header rr)\<rparr>"
| "apply_writer_call rr (CallWriteHeader code) = WriteHeader code rr"
| "apply_writer_call rr (CallWrite data) = Write data rr"

definition serve_into_recorder :: "writer_call list \<Rightarrow> responseRecorder" where
  "serve_into_recorder calls = foldl apply_writer_call emptyRecorder calls"

subsection \<open>What the client receives\<close>

text \<open>
  \<open>HttpError msg code\<close> is the call \<^verbatim>\<open>http.Error(w, msg, code)\<close>; \<open>Copied rr\<close> is
  \<^verbatim>\<open>rr.copyToResponseWriter(w)\<close>; \<open>NothingWritten\<close> is a handler that returns without
  touching the writer \<open>w\<close>; \<open>Upgraded n\<close> is a WebSocket session proxied to node \<open>n\<close> and
  \<open>UpgradeFailed\<close> a client connection that the upgrader rejected.
\<close>

datatype client_response =
    NothingWritten
  | HttpError string int
  | Copied responseRecorder
  | Upgraded nat
  | UpgradeFailed

subsection \<open>The environment of one request\<close>

text \<open>
  The handler reads the clock and the network. For attempt number \<open>i\<close> (from 0):
  \<open>ctxDone i\<close> says whether the channel \<^verbatim>\<open>overallCtx.Done()\<close> is closed when
  \<^verbatim>\<open>checkRequestTimeout\<close> looks at it, \<open>elapsed i\<close> is the value of \<^verbatim>\<open>time.Since(start)\<close>
  used for \<^verbatim>\<open>remainingTimeout\<close>, and \<open>upstream i n\<close> is what the proxy of node \<open>n\<close> writes
  to the recorder. For a WebSocket request \<open>dial n\<close> says whether dialling node \<open>n\<close>
  succeeds and \<open>upgrade_ok\<close> whether the client connection can be upgraded.
\<close>

record request_env =
  ctxDone :: "nat \<Rightarrow> bool"
  elapsed :: "nat \<Rightarrow> int"
  upstream :: "nat \<Rightarrow> nat \<Rightarrow> writer_call list"
  dial :: "nat \<Rightarrow> bool"
  upgrade_ok :: bool

record request =
  path :: string
  isWebSocketUpgrade :: bool

subsection \<open>HTTP path\<close>

text \<open>\<open>demote\<close> is the demotion block that \<^verbatim>\<open>handleNodeError\<close> and
  \<^verbatim>\<open>connectToUpstreamWebSocket\<close> both contain: the priority becomes \<^verbatim>\<open>len(lb.nodes)\<close> and
  the healthy set is rebuilt from the entries whose name differs from the node's.\<close>

definition demote :: "nat \<Rightarrow> LoadBalancer \<Rightarrow> LoadBalancer" where
  "demote node lb =
     (let maxPriority = int (length (nodes lb));
          lb1 = update_node node (SetPriority maxPriority) lb;
          updatedHealthy =
            filter (\<lambda>n. Name (nodes lb1 ! n) \<noteq> Name (nodes lb1 ! node)) (healthyNodes lb1)
      in lb1\<lparr>healthyNodes := updatedHealthy\<rparr>)"

definition handleNodeError :: "nat \<Rightarrow> int \<Rightarrow> LoadBalancer \<Rightarrow> LoadBalancer" where
  "handleNodeError node code lb =
     (if code \<ge> HTTPStatusServerErrorMin then
        let lb1 = update_node node IncrementError lb;
            consecutiveErrors = sint (ConsecutiveErrors (nodes lb1 ! node))
        in if IsPrimary (nodes lb1 ! node) \<and> consecutiveErrors \<ge> ErrorThreshold (config lb1)
           then demote node lb1
           else lb1
      else lb)"

definition attemptNodeRequest ::
  "request_env \<Rightarrow> nat \<Rightarrow> nat \<Rightarrow> LoadBalancer \<Rightarrow> responseRecorder \<times> LoadBalancer" where
  "attemptNodeRequest env i node lb =
     (serve_into_recorder (upstream env i node), update_node node IncrementRequests lb)"

definition handleSuccessResponse ::
  "nat \<Rightarrow> responseRecorder \<Rightarrow> LoadBalancer \<Rightarrow> client_response \<times> LoadBalancer" where
  "handleSuccessResponse node recorder lb = (Copied recorder, update_node node ResetErrors lb)"

text \<open>The loop of \<^verbatim>\<open>handleHTTPRequest\<close> over the snapshot, from attempt number \<open>i\<close>. It
  returns the response, the nodes it has sent the request to, in order, and the new
  state. The \<^verbatim>\<open>continue\<close> at the end of the loop body is the end of the body either way.\<close>

fun http_attempts ::
  "request_env \<Rightarrow> nat \<Rightarrow> nat list \<Rightarrow> LoadBalancer \<Rightarrow> client_response \<times> nat list \<times> LoadBalancer" where
  "http_attempts env i [] lb = (HttpError ''All beacon nodes unavailable'' StatusBadGateway, [], lb)"
| "http_attempts env i (node # rest) lb =
     (if int i \<ge> MaxRetries (config lb)
      then (HttpError ''All beacon nodes unavailable'' StatusBadGateway, [], lb)
      else if ctxDone env i then (NothingWritten, [], lb)
      else if RequestTimeout (config lb) - elapsed env i \<le> 0
      then (HttpError ''Request timeout'' StatusGatewayTimeout, [], lb)
      else
        (case attemptNodeRequest env i node lb of (recorder, lb1) \<Rightarrow>
           let lastStatusCode = statusCode recorder in
           if lastStatusCode \<ge> HTTPStatusSuccessMin \<and> lastStatusCode < HTTPStatusSuccessMax
           then (case handleSuccessResponse node recorder lb1 of (resp, lb2) \<Rightarrow> (resp, [node], lb2))
           else
             (case http_attempts env (Suc i) rest (handleNodeError node lastStatusCode lb1) of
                (resp, attempted, lb2) \<Rightarrow> (resp, node # attempted, lb2))))"

definition handleHTTPRequest ::
  "request_env \<Rightarrow> LoadBalancer \<Rightarrow> client_response \<times> nat list \<times> LoadBalancer" where
  "handleHTTPRequest env lb = http_attempts env 0 (GetHealthyNodes lb) lb"

subsection \<open>WebSocket path\<close>

text \<open>The body of \<^verbatim>\<open>if err != nil\<close> in \<^verbatim>\<open>connectToUpstreamWebSocket\<close>, before its
  \<^verbatim>\<open>continue\<close>.\<close>

definition dial_failed :: "nat \<Rightarrow> LoadBalancer \<Rightarrow> LoadBalancer" where
  "dial_failed node lb =
     (let lb1 = update_node node IncrementError lb
      in if IsPrimary (nodes lb1 ! node)
         then
           let consecutiveErrors = sint (ConsecutiveErrors (nodes lb1 ! node))
           in if consecutiveErrors \<ge> ErrorThreshold (config lb1) then demote node lb1 else lb1
         else lb1)"

fun connectToUpstreamWebSocket ::
  "request_env \<Rightarrow> nat list \<Rightarrow> LoadBalancer \<Rightarrow> nat option \<times> LoadBalancer" where
  "connectToUpstreamWebSocket env [] lb = (None, lb)"
| "connectToUpstreamWebSocket env (node # rest) lb =
     (if \<not> dial env node then connectToUpstreamWebSocket env rest (dial_failed node lb)
      else (Some node, lb))"

definition handleWebSocket ::
  "(string \<Rightarrow> bool) \<Rightarrow> request_env \<Rightarrow> request \<Rightarrow> LoadBalancer \<Rightarrow> client_response \<times> LoadBalancer" where
  "handleWebSocket valid env r lb =
     (if \<not> valid (path r) then (HttpError ''Invalid Beacon Chain API endpoint'' StatusForbidden, lb)
      else
        let healthy = GetHealthyNodes lb in
        if length healthy = 0
        then (HttpError ''No healthy beacon nodes available'' StatusServiceUnavailable, lb)
        else
          (case connectToUpstreamWebSocket env healthy lb of
             (None, lb1) \<Rightarrow>
               (HttpError ''Failed to establish WebSocket connection to any node'' StatusBadGateway,
                lb1)
           | (Some selectedNode, lb1) \<Rightarrow>
               if \<not> upgrade_ok env then (UpgradeFailed, lb1)
               else (Upgraded selectedNode, update_node selectedNode IncrementRequests lb1)))"

subsection \<open>Entry point\<close>

text \<open>\<^verbatim>\<open>ServeHTTP\<close>; \<open>valid\<close> is the endpoint validator \<^verbatim>\<open>IsValidBeaconEndpoint\<close>.\<close>

definition ServeHTTP ::
  "(string \<Rightarrow> bool) \<Rightarrow> request_env \<Rightarrow> request \<Rightarrow> LoadBalancer \<Rightarrow> client_response \<times> LoadBalancer" where
  "ServeHTTP valid env r lb =
     (if \<not> valid (path r) then (HttpError ''Invalid Beacon Chain API endpoint'' StatusForbidden, lb)
      else if isWebSocketUpgrade r then handleWebSocket valid env r lb
      else (case handleHTTPRequest env lb of (resp, attempted, lb1) \<Rightarrow> (resp, lb1)))"

section \<open>Example deployments\<close>

text \<open>Two backends, the primary \<open>p\<close> and the backup \<open>b\<close>, as in the repository's failover
  tests; and three backends \<open>p\<close>, \<open>b1\<close>, \<open>b2\<close>.\<close>

definition example_config :: "int \<Rightarrow> Config" where
  "example_config maxRetries =
     \<lparr>MaxRetries = maxRetries, RequestTimeout = 1200000000, ErrorThreshold = 3,
      SuccessfulChecksForFailback = 3\<rparr>"

definition two_nodes :: "NodeConfig list" where
  "two_nodes = [(''p'', ''http://p:5052''), (''b'', ''http://b:5052'')]"

definition three_nodes :: "NodeConfig list" where
  "three_nodes = [(''p'', ''http://p:5052''), (''b1'', ''http://b1:5052''), (''b2'', ''http://b2:5052'')]"

definition synced_body :: string where
  "synced_body = ''{\"data\":{\"is_syncing\":false,\"sync_distance\":\"0\"}}''"

definition syncing_body :: string where
  "syncing_body = ''{\"data\":{\"is_syncing\":true,\"sync_distance\":\"100\"}}''"

definition all_synced :: "nat \<Rightarrow> get_result" where
  "all_synced n = GetResponse 200 (ReadOk synced_body)"

definition configured :: "int \<Rightarrow> NodeConfig list \<Rightarrow> LoadBalancer" where
  "configured maxRetries allNodes =
     \<lparr>nodes = New_nodes (\<lambda>url. True) 0 allNodes, config = example_config maxRetries,
      healthyNodes = []\<rparr>"

definition started :: "int \<Rightarrow> NodeConfig list \<Rightarrow> LoadBalancer" where
  "started maxRetries allNodes =
     fst (StartupHealthCheck example_unmarshal all_synced (\<lambda>n. n) (configured maxRetries allNodes))"

text \<open>A request environment in which the deadline never fires, \<open>p\<close> (node 0) answers 500
  and every other node answers 200 with a head slot.\<close>

definition failing_primary_env :: request_env where
  "failing_primary_env =
     \<lparr>ctxDone = (\<lambda>i. False), elapsed = (\<lambda>i. 0),
      upstream = (\<lambda>i n. if n = 0 then [CallWriteHeader 500]
                         else [CallWriteHeader 200, CallWrite ''{\"data\":{\"head_slot\":\"67890\"}}'']),
      dial = (\<lambda>n. n \<noteq> 0), upgrade_ok = True\<rparr>"

text \<open>The same, but the overall context is already done when the first attempt is about
  to start.\<close>

definition deadline_passed_env :: request_env where
  "deadline_passed_env = failing_primary_env\<lparr>ctxDone := (\<lambda>i. True), elapsed := (\<lambda>i. 1300000000)\<rparr>"

definition http_request :: request where
  "http_request = \<lparr>path = ''/eth/v1/beacon/headers/head'', isWebSocketUpgrade = False\<rparr>"

definition ws_request :: request where
  "ws_request = \<lparr>path = ''/eth/v1/events'', isWebSocketUpgrade = True\<rparr>"

definition example_valid :: "string \<Rightarrow> bool" where
  "example_valid p \<longleftrightarrow> p = ''/eth/v1/beacon/headers/head'' \<or> p = ''/eth/v1/events''"

text \<open>The node states of the two-backend deployment while \<open>p\<close> keeps failing: \<open>p\<close> has
  failed \<open>k\<close> times in a row and has priority \<open>prio\<close>, both nodes have been sent \<open>k\<close>
  requests, and \<open>healthy\<close> is the healthy set.\<close>

definition failover_state :: "int \<Rightarrow> int64 \<Rightarrow> int \<Rightarrow> nat list \<Rightarrow> LoadBalancer" where
  "failover_state m k prio healthy =
     \<lparr>nodes =
        [\<lparr>Name = ''p'', URL = ''http://p:5052'', ConsecutiveErrors = k, ConsecutiveSuccesses = 0,
          TotalFailures = k, Requests = k, Priority = prio, OriginalPriority = 0\<rparr>,
         \<lparr>Name = ''b'', URL = ''http://b:5052'', ConsecutiveErrors = 0, ConsecutiveSuccesses = 0,
          TotalFailures = 0, Requests = k, Priority = 1, OriginalPriority = 1\<rparr>],
      config = example_config m, healthyNodes = healthy\<rparr>"

definition primary_response :: responseRecorder where
  "primary_response = \<lparr>statusCode = 500, header = [], body = []\<rparr>"

definition backup_response :: responseRecorder where
  "backup_response =
     \<lparr>statusCode = 200, header = [], body = ''{\"data\":{\"head_slot\":\"67890\"}}''\<rparr>"

text \<open>The two-backend deployment while \<open>b\<close> stands in as primary: \<open>p\<close> has been demoted
  to priority 2 and has passed two periodic checks in a row since.\<close>

definition interim_state :: LoadBalancer where
  "interim_state =
     \<lparr>nodes =
        [\<lparr>Name = ''p'', URL = ''http://p:5052'', ConsecutiveErrors = 0, ConsecutiveSuccesses = 2,
          TotalFailures = 3, Requests = 3, Priority = 2, OriginalPriority = 0\<rparr>,
         \<lparr>Name = ''b'', URL = ''http://b:5052'', ConsecutiveErrors = 0, ConsecutiveSuccesses = 0,
          TotalFailures = 0, Requests = 7, Priority = 0, OriginalPriority = 1\<rparr>],
      config = example_config 3, healthyNodes = [1]\<rparr>"

section \<open>Notions used in the statements\<close>

text \<open>Attempt number \<open>i\<close>, sent to \<open>node\<close>, fails without the deadline cutting the request
  short: the overall context is not done, some of the request timeout remains, and the
  recorded status is not in the success range.\<close>

definition attempt_fails :: "request_env \<Rightarrow> Config \<Rightarrow> nat \<Rightarrow> nat \<Rightarrow> bool" where
  "attempt_fails env cfg i node \<longleftrightarrow>
     \<not> ctxDone env i \<and> 0 < RequestTimeout cfg - elapsed env i
     \<and> \<not> (200 \<le> statusCode (serve_into_recorder (upstream env i node))
          \<and> statusCode (serve_into_recorder (upstream env i node)) < 400)"

text \<open>\<^verbatim>\<open>min(len(snapshot), max_retries)\<close>.\<close>

definition retry_budget :: "Config \<Rightarrow> nat list \<Rightarrow> nat" where
  "retry_budget cfg snapshot = min (length snapshot) (nat (MaxRetries cfg))"

text \<open>The priorities along the healthy set, in its order.\<close>

definition healthy_priorities :: "LoadBalancer \<Rightarrow> int list" where
  "healthy_priorities lb = map (\<lambda>n. GetPriority (nodes lb ! n)) (healthyNodes lb)"

text \<open>The entries of the healthy set that are primaries.\<close>

definition primaries_in_healthy :: "LoadBalancer \<Rightarrow> nat list" where
  "primaries_in_healthy lb = filter (\<lambda>n. IsPrimary (nodes lb ! n)) (healthyNodes lb)"

text \<open>The specification's primary invariant: the healthy set is empty, or exactly one
  backend in it has priority 0.\<close>

definition claimed_primary_invariant :: "LoadBalancer \<Rightarrow> bool" where
  "claimed_primary_invariant lb \<longleftrightarrow>
     healthyNodes lb = [] \<or> length (primaries_in_healthy lb) = 1"

text \<open>Two states have the same backends: as many, with the same configuration, names and
  original priorities.\<close>

definition same_identity :: "LoadBalancer \<Rightarrow> LoadBalancer \<Rightarrow> bool" where
  "same_identity lb lb' \<longleftrightarrow>
     length (nodes lb') = length (nodes lb) \<and> config lb' = config lb
     \<and> (\<forall>m. Name (nodes lb' ! m) = Name (nodes lb ! m)
            \<and> OriginalPriority (nodes lb' ! m) = OriginalPriority (nodes lb ! m))"

text \<open>What \<^verbatim>\<open>New\<close> establishes for names that are unique in the configuration: the names
  of the backends are pairwise different, and a backend with original priority 0 can only
  be the first one.\<close>

definition well_formed :: "LoadBalancer \<Rightarrow> bool" where
  "well_formed lb \<longleftrightarrow>
     distinct (map Name (nodes lb))
     \<and> (\<forall>m < length (nodes lb). OriginalPriority (nodes lb ! m) = 0 \<longrightarrow> m = 0)"

text \<open>The invariant behind the primary property: the healthy set refers to existing
  backends, each at most once; a backend of the healthy set whose original priority is 0
  is a primary; and no two different entries of the healthy set are primaries.\<close>

definition healthy_invariant :: "LoadBalancer \<Rightarrow> bool" where
  "healthy_invariant lb \<longleftrightarrow>
     well_formed lb
     \<and> distinct (healthyNodes lb)
     \<and> (\<forall>h \<in> set (healthyNodes lb). h < length (nodes lb))
     \<and> (\<forall>h \<in> set (healthyNodes lb).
           OriginalPriority (nodes lb ! h) = 0 \<longrightarrow> Priority (nodes lb ! h) = 0)
     \<and> (\<forall>a \<in> set (healthyNodes lb). \<forall>b \<in> set (healthyNodes lb).
           Priority (nodes lb ! a) = 0 \<and> Priority (nodes lb ! b) = 0 \<longrightarrow> a = b)"

text \<open>
  The states of the balancer at its observable moments. It starts with a successful
  startup health check of a balancer built by \<^verbatim>\<open>New\<close> from uniquely named nodes. Then
  requests are served and periodic passes run, in any order and with any behaviour of the
  backends, the network and the clock. The two demotion steps are moments of their own:
  they happen in the middle of a request, and, when requests overlap, for a node of a
  snapshot that is no longer the healthy set.
\<close>

inductive reachable :: "LoadBalancer \<Rightarrow> bool" where
  start: "distinct (map fst allNodes) \<Longrightarrow> New parse_ok metrics_ok cfg allNodes = Inr lb0 \<Longrightarrow>
          StartupHealthCheck um probe finish lb0 = (lb, None) \<Longrightarrow> reachable lb"
| request: "reachable lb \<Longrightarrow> ServeHTTP valid env r lb = (resp, lb') \<Longrightarrow> reachable lb'"
| node_error: "reachable lb \<Longrightarrow> node < length (nodes lb) \<Longrightarrow>
          reachable (handleNodeError node code lb)"
| dial_error: "reachable lb \<Longrightarrow> node < length (nodes lb) \<Longrightarrow> reachable (dial_failed node lb)"
| periodic: "reachable lb \<Longrightarrow> reachable (performHealthCheck um probe finish lb)"

section \<open>Properties of the backend counters\<close>

lemmas node_defs =
  NewBeaconNode_def IncrementError_def IncrementSuccess_def ResetErrors_def ResetSuccesses_def
  IncrementRequests_def SetPriority_def GetPriority_def IsPrimary_def IsBackup_def
  GetConsecutiveSuccesses_def

lemma uint_inc_le: "uint ((w::int64) + 1) \<le> uint w + 1"
  using uint_add_le [of w 1] by simp

lemma sint_eq_uint_small:
  assumes "uint (w::int64) < 2 ^ 63"
  shows "sint w = uint w"
proof -
  have "signed_take_bit 63 (uint w) = uint w"
  proof (rule signed_take_bit_int_eq_self)
    show "- (2 ^ 63) \<le> uint w" by (rule order_trans [of _ 0]) simp_all
    show "uint w < 2 ^ 63" using assms by simp
  qed
  then show ?thesis by (simp add: sint_uint)
qed

lemma counter_op_bounds:
  "uint (ConsecutiveErrors (apply_counter_op bn a)) \<le> uint (ConsecutiveErrors bn) + 1"
  "uint (ConsecutiveSuccesses (apply_counter_op bn a)) \<le> uint (ConsecutiveSuccesses bn) + 1"
  using uint_inc_le by (cases a; simp add: node_defs)+

lemma counter_ops_bounds:
  "uint (ConsecutiveErrors (foldl apply_counter_op bn ops))
     \<le> uint (ConsecutiveErrors bn) + int (length ops) \<and>
   uint (ConsecutiveSuccesses (foldl apply_counter_op bn ops))
     \<le> uint (ConsecutiveSuccesses bn) + int (length ops)"
proof (induction ops arbitrary: bn)
  case Nil
  show ?case by simp
next
  case (Cons a ops)
  from Cons.IH [of "apply_counter_op bn a"] counter_op_bounds [of bn a]
  show ?case by simp
qed

lemma not_both_after_op:
  assumes "a \<noteq> OpIncrementSuccess"
  shows "ConsecutiveErrors (apply_counter_op bn a) = 0
           \<or> ConsecutiveSuccesses (apply_counter_op bn a) = 0"
  using assms by (cases a) (simp_all add: node_defs)

text \<open>
  C7, as the code has it. \<^verbatim>\<open>IncrementSuccess\<close> adds one to the success counter and leaves
  the error counter alone (its caller, the periodic pass, calls \<^verbatim>\<open>ResetErrors\<close> next). So:
  for every sequence of fewer than \<open>2^63\<close> counter operations from the state that
  \<^verbatim>\<open>NewBeaconNode\<close> builds, neither counter is negative, and the two counters are not both
  strictly positive unless the last operation was \<^verbatim>\<open>IncrementSuccess\<close>.
\<close>

theorem counters_after_ops:
  assumes "length ops < 2 ^ 63"
  shows "0 \<le> errors_of (run_counter_ops (NewBeaconNode name url) ops)
       \<and> 0 \<le> successes_of (run_counter_ops (NewBeaconNode name url) ops)
       \<and> (ops = [] \<or> last ops \<noteq> OpIncrementSuccess
            \<longrightarrow> \<not> both_positive (run_counter_ops (NewBeaconNode name url) ops))"
proof -
  let ?bn = "run_counter_ops (NewBeaconNode name url) ops"
  from assms have len: "int (length ops) < 2 ^ 63"
    by (metis of_nat_less_iff of_nat_numeral of_nat_power)
  from counter_ops_bounds [of "NewBeaconNode name url" ops]
  have "uint (ConsecutiveErrors ?bn) \<le> int (length ops)"
    and "uint (ConsecutiveSuccesses ?bn) \<le> int (length ops)"
    by (simp_all add: run_counter_ops_def NewBeaconNode_def)
  with len have e: "uint (ConsecutiveErrors ?bn) < 2 ^ 63"
    and s: "uint (ConsecutiveSuccesses ?bn) < 2 ^ 63"
    by linarith+
  have nonneg: "0 \<le> errors_of ?bn" "0 \<le> successes_of ?bn"
    using sint_eq_uint_small [OF e] sint_eq_uint_small [OF s]
    by (simp_all add: errors_of_def successes_of_def)
  have "\<not> both_positive ?bn" if "ops = [] \<or> last ops \<noteq> OpIncrementSuccess"
  proof (cases ops rule: rev_cases)
    case Nil
    then show ?thesis
      by (simp add: both_positive_def run_counter_ops_def NewBeaconNode_def errors_of_def)
  next
    case (snoc pre a)
    with that have "a \<noteq> OpIncrementSuccess" by simp
    from not_both_after_op [OF this, of "foldl apply_counter_op (NewBeaconNode name url) pre"]
    show ?thesis
      by (auto simp: snoc both_positive_def run_counter_ops_def errors_of_def successes_of_def)
  qed
  with nonneg show ?thesis by blast
qed

theorem counters_after_ops_witness:
  "\<not> both_positive (run_counter_ops (NewBeaconNode ''p'' ''http://p:5052'')
       [OpIncrementError, OpIncrementSuccess, OpResetErrors])"
  using counters_after_ops
    [of "[OpIncrementError, OpIncrementSuccess, OpResetErrors]" "''p''" "''http://p:5052''"]
  by simp

text \<open>C7 as stated fails: after \<^verbatim>\<open>IncrementError\<close> and then \<^verbatim>\<open>IncrementSuccess\<close> both counters
  are 1.\<close>

theorem counters_both_positive_counterexample:
  "both_positive (run_counter_ops (NewBeaconNode ''p'' ''http://p:5052'')
     [OpIncrementError, OpIncrementSuccess])"
  by (simp add: both_positive_def run_counter_ops_def node_defs errors_of_def successes_of_def)

section \<open>Properties of the health prober\<close>

lemma spec_healthy_iff:
  "spec_healthy um res \<longleftrightarrow>
     (\<exists>b sr. res = GetResponse 200 (ReadOk b) \<and> um b = Some sr
        \<and> \<not> IsSyncing sr \<and> SyncDistance sr = ''0'')"
  by (auto simp: spec_healthy_def split: get_result.splits body_read.splits option.splits)

text \<open>
  C6. Both probe functions report a backend healthy exactly when the specification's
  condition holds (status 200, the body parses, \<^verbatim>\<open>is_syncing\<close> false, \<^verbatim>\<open>sync_distance\<close>
  \<^verbatim>\<open>"0"\<close>); a healthy outcome of \<^verbatim>\<open>HealthCheck\<close> carries no error, and every unhealthy one
  carries an error whose reason is one of the six listed tags (the seventh tag of the
  source, \<^verbatim>\<open>not_synced\<close>, is never produced).
\<close>

theorem HealthCheck_classification:
  "(fst (HealthCheck um res) \<longleftrightarrow> spec_healthy um res)
   \<and> (fst (CheckSyncStatus um res) \<longleftrightarrow> spec_healthy um res)
   \<and> (spec_healthy um res \<longrightarrow> snd (HealthCheck um res) = None)
   \<and> (\<not> spec_healthy um res \<longrightarrow>
        (\<exists>e. snd (HealthCheck um res) = Some e \<and> Reason e \<in> set failure_tags))"
  by (auto simp: HealthCheck_def CheckSyncStatus_def spec_healthy_def StatusOK_def Let_def
      failure_tags_def emptyHealthCheckError_def
      split: get_result.splits body_read.splits option.splits)

theorem HealthCheck_classification_witness:
  "spec_healthy example_unmarshal (GetResponse 200 (ReadOk synced_body))
   \<and> snd (HealthCheck example_unmarshal (GetResponse 200 (ReadOk synced_body))) = None
   \<and> \<not> spec_healthy example_unmarshal (GetResponse 200 (ReadOk syncing_body))
   \<and> (\<exists>e. snd (HealthCheck example_unmarshal (GetResponse 200 (ReadOk syncing_body))) = Some e
          \<and> Reason e \<in> set failure_tags)"
  using HealthCheck_classification [of example_unmarshal "GetResponse 200 (ReadOk synced_body)"]
    HealthCheck_classification [of example_unmarshal "GetResponse 200 (ReadOk syncing_body)"]
  by (simp add: spec_healthy_def example_unmarshal_def synced_body_def syncing_body_def)

section \<open>Properties of the routing engine\<close>

lemma started_two_nodes:
  "started m two_nodes =
     \<lparr>nodes =
        [\<lparr>Name = ''p'', URL = ''http://p:5052'', ConsecutiveErrors = 0, ConsecutiveSuccesses = 0,
          TotalFailures = 0, Requests = 0, Priority = 0, OriginalPriority = 0\<rparr>,
         \<lparr>Name = ''b'', URL = ''http://b:5052'', ConsecutiveErrors = 0, ConsecutiveSuccesses = 0,
          TotalFailures = 0, Requests = 0, Priority = 1, OriginalPriority = 1\<rparr>],
      config = example_config m, healthyNodes = [0, 1]\<rparr>"
  by (simp add: started_def configured_def two_nodes_def StartupHealthCheck_def
      arrival_order_def all_synced_def CheckSyncStatus_def example_unmarshal_def synced_body_def
      StatusOK_def node_defs Let_def upt_rec [of 0] upt_rec [of "Suc 0"])

text \<open>The two deadline checks at the head of the loop body. When the overall context is
  done the handler returns and nothing has been written; the 504 is sent only when the
  context is not yet done and no time remains.\<close>

lemma context_done_nothing_written:
  assumes "healthyNodes lb \<noteq> []" and "0 < MaxRetries (config lb)" and "ctxDone env 0"
  shows "handleHTTPRequest env lb = (NothingWritten, [], lb)"
  using assms by (cases "healthyNodes lb") (simp_all add: handleHTTPRequest_def GetHealthyNodes_def)

lemma no_time_remaining_504:
  assumes "healthyNodes lb \<noteq> []" and "0 < MaxRetries (config lb)" and "\<not> ctxDone env 0"
    and "RequestTimeout (config lb) \<le> elapsed env 0"
  shows "handleHTTPRequest env lb = (HttpError ''Request timeout'' 504, [], lb)"
  using assms
  by (cases "healthyNodes lb")
    (simp_all add: handleHTTPRequest_def GetHealthyNodes_def StatusGatewayTimeout_def)

text \<open>
  C9 at a failing input: two healthy backends, and the overall context is already done
  when the first attempt is about to start. The handler returns without having written
  anything to the client and without an attempt; it does not send the 504.
\<close>

theorem handleHTTPRequest_deadline_passed:
  "handleHTTPRequest deadline_passed_env (started 3 two_nodes)
     = (NothingWritten, [], started 3 two_nodes)"
  by (simp add: started_two_nodes handleHTTPRequest_def GetHealthyNodes_def
      deadline_passed_env_def failing_primary_env_def example_config_def)

text \<open>
  C10, as the code has it: a WebSocket upgrade request with a valid path that finds the
  healthy set empty is answered with status 503 (Service Unavailable) and the message
  \<^verbatim>\<open>No healthy beacon nodes available\<close>, and the state is unchanged.
\<close>

theorem handleWebSocket_no_healthy:
  assumes "valid (path r)" and "isWebSocketUpgrade r" and "healthyNodes lb = []"
  shows "ServeHTTP valid env r lb = (HttpError ''No healthy beacon nodes available'' 503, lb)"
  using assms
  by (simp add: ServeHTTP_def handleWebSocket_def GetHealthyNodes_def StatusServiceUnavailable_def)

theorem handleWebSocket_no_healthy_witness:
  "ServeHTTP example_valid failing_primary_env ws_request (configured 3 two_nodes)
     = (HttpError ''No healthy beacon nodes available'' 503, configured 3 two_nodes)"
  using handleWebSocket_no_healthy
    [of example_valid ws_request "configured 3 two_nodes" failing_primary_env]
  by (simp add: example_valid_def ws_request_def configured_def)

text \<open>C10 as stated fails: the status is not 502.\<close>

theorem handleWebSocket_no_healthy_counterexample:
  "fst (ServeHTTP example_valid failing_primary_env ws_request (configured 3 two_nodes))
     \<noteq> HttpError ''No healthy beacon nodes available'' 502"
  by (simp add: ServeHTTP_def handleWebSocket_def GetHealthyNodes_def
      StatusServiceUnavailable_def configured_def example_valid_def ws_request_def)

subsection \<open>State that the steps leave alone\<close>

lemma update_node_simps [simp]:
  "length (nodes (update_node n f lb)) = length (nodes lb)"
  "config (update_node n f lb) = config lb"
  "healthyNodes (update_node n f lb) = healthyNodes lb"
  by (simp_all add: update_node_def)

lemma nodes_update_node:
  "n < length (nodes lb) \<Longrightarrow>
     nodes (update_node n f lb) ! m = (if m = n then f (nodes lb ! n) else nodes lb ! m)"
  by (simp add: update_node_def nth_list_update)

lemma demote_simps [simp]:
  "length (nodes (demote n lb)) = length (nodes lb)"
  "config (demote n lb) = config lb"
  by (simp_all add: demote_def Let_def)

lemma handleNodeError_simps [simp]:
  "length (nodes (handleNodeError n c lb)) = length (nodes lb)"
  "config (handleNodeError n c lb) = config lb"
  by (simp_all add: handleNodeError_def Let_def)

lemma dial_failed_simps [simp]:
  "length (nodes (dial_failed n lb)) = length (nodes lb)"
  "config (dial_failed n lb) = config lb"
  by (simp_all add: dial_failed_def Let_def)

subsection \<open>On-request demotion\<close>

lemma demote_effect:
  assumes "node < length (nodes lb)"
  shows "Priority (nodes (demote node lb) ! node) = int (length (nodes lb))"
    and "node \<notin> set (healthyNodes (demote node lb))"
    and "m \<noteq> node \<Longrightarrow> nodes (demote node lb) ! m = nodes lb ! m"
    and "healthyNodes (demote node lb)
           = filter (\<lambda>n. Name (nodes lb ! n) \<noteq> Name (nodes lb ! node)) (healthyNodes lb)"
  using assms
  by (auto simp: demote_def Let_def node_defs update_node_def nth_list_update intro!: filter_cong)

lemma demotion_taken:
  assumes "node < length (nodes lb)"
    and "IsPrimary (nodes lb ! node)"
    and "ErrorThreshold (config lb) \<le> sint (ConsecutiveErrors (nodes lb ! node) + 1)"
  shows "500 \<le> code \<Longrightarrow>
           handleNodeError node code lb = demote node (update_node node IncrementError lb)"
    and "dial_failed node lb = demote node (update_node node IncrementError lb)"
  using assms
  by (simp_all add: handleNodeError_def dial_failed_def Let_def HTTPStatusServerErrorMin_def
      nodes_update_node node_defs)

lemma demote_after_error:
  assumes "node < length (nodes lb)"
  defines "lb' \<equiv> demote node (update_node node IncrementError lb)"
  shows "Priority (nodes lb' ! node) = int (length (nodes lb))
       \<and> node \<notin> set (GetHealthyNodes lb')
       \<and> GetHealthyNodes lb'
           = filter (\<lambda>n. Name (nodes lb ! n) \<noteq> Name (nodes lb ! node)) (GetHealthyNodes lb)
       \<and> (\<forall>m. m \<noteq> node \<longrightarrow> nodes lb' ! m = nodes lb ! m)"
proof -
  let ?lb1 = "update_node node IncrementError lb"
  have n1: "node < length (nodes ?lb1)" using assms(1) by simp
  have names: "\<And>n. Name (nodes ?lb1 ! n) = Name (nodes lb ! n)"
    using assms(1) by (simp add: nodes_update_node node_defs)
  have others: "\<And>m. m \<noteq> node \<Longrightarrow> nodes ?lb1 ! m = nodes lb ! m"
    using assms(1) by (simp add: nodes_update_node)
  show ?thesis
    unfolding lb'_def GetHealthyNodes_def
    using demote_effect [OF n1] names others by simp
qed

text \<open>
  C4. Let \<open>node\<close> be the current primary and let its consecutive errors reach the error
  threshold with the error being counted. After \<^verbatim>\<open>handleNodeError\<close> with a status of 500 or
  more, and likewise after a failed WebSocket dial: the node's priority is the number of
  configured backends; what a read of the healthy set returns is the former healthy set
  without the node (filtered by name); and every other backend is exactly as before, so
  nothing has been promoted. \<^verbatim>\<open>GetHealthyNodes\<close> is a read: it returns the list and changes
  nothing, so this is what any number of reads observe until the next write.
\<close>

theorem on_request_demotion:
  assumes "node < length (nodes lb)"
    and "IsPrimary (nodes lb ! node)"
    and "500 \<le> code"
    and "ErrorThreshold (config lb) \<le> sint (ConsecutiveErrors (nodes lb ! node) + 1)"
  shows "Priority (nodes (handleNodeError node code lb) ! node) = int (length (nodes lb))
       \<and> node \<notin> set (GetHealthyNodes (handleNodeError node code lb))
       \<and> GetHealthyNodes (handleNodeError node code lb)
           = filter (\<lambda>n. Name (nodes lb ! n) \<noteq> Name (nodes lb ! node)) (GetHealthyNodes lb)
       \<and> (\<forall>m. m \<noteq> node \<longrightarrow> nodes (handleNodeError node code lb) ! m = nodes lb ! m)
       \<and> Priority (nodes (dial_failed node lb) ! node) = int (length (nodes lb))
       \<and> node \<notin> set (GetHealthyNodes (dial_failed node lb))
       \<and> GetHealthyNodes (dial_failed node lb)
           = filter (\<lambda>n. Name (nodes lb ! n) \<noteq> Name (nodes lb ! node)) (GetHealthyNodes lb)
       \<and> (\<forall>m. m \<noteq> node \<longrightarrow> nodes (dial_failed node lb) ! m = nodes lb ! m)"
  using demotion_taken [OF assms(1,2,4)] assms(3) demote_after_error [OF assms(1)]
  by simp

theorem on_request_demotion_witness:
  "Priority (nodes (handleNodeError 0 500 (failover_state 3 2 0 [0, 1])) ! 0) = 2
   \<and> GetHealthyNodes (handleNodeError 0 500 (failover_state 3 2 0 [0, 1])) = [1]
   \<and> Priority (nodes (dial_failed 0 (failover_state 3 2 0 [0, 1])) ! 0) = 2
   \<and> GetHealthyNodes (dial_failed 0 (failover_state 3 2 0 [0, 1])) = [1]"
  using on_request_demotion [of 0 "failover_state 3 2 0 [0, 1]" 500]
  by (simp add: failover_state_def example_config_def GetHealthyNodes_def node_defs)

subsection \<open>The retry loop\<close>

lemma http_attempts_prefix:
  "http_attempts env i ns lb = (resp, att, lb') \<Longrightarrow>
     length att \<le> min (length ns) (nat (MaxRetries (config lb) - int i))
     \<and> att = take (length att) ns \<and> config lb' = config lb"
proof (induction ns arbitrary: i lb resp att lb')
  case Nil
  then show ?case by simp
next
  case (Cons node rest)
  show ?case
  proof (cases "int i \<ge> MaxRetries (config lb) \<or> ctxDone env i
                  \<or> RequestTimeout (config lb) - elapsed env i \<le> 0")
    case True
    with Cons.prems show ?thesis by (auto split: if_splits)
  next
    case False
    let ?rec = "serve_into_recorder (upstream env i node)"
    let ?lb1 = "update_node node IncrementRequests lb"
    show ?thesis
    proof (cases "statusCode ?rec \<ge> HTTPStatusSuccessMin \<and> statusCode ?rec < HTTPStatusSuccessMax")
      case True
      with False Cons.prems show ?thesis
        by (auto simp: attemptNodeRequest_def handleSuccessResponse_def Let_def)
    next
      case failed: False
      obtain r a l where rec:
        "http_attempts env (Suc i) rest (handleNodeError node (statusCode ?rec) ?lb1) = (r, a, l)"
        by (cases "http_attempts env (Suc i) rest (handleNodeError node (statusCode ?rec) ?lb1)")
          auto
      from Cons.IH [OF rec]
      have ih: "length a \<le> min (length rest) (nat (MaxRetries (config lb) - int (Suc i)))"
        "a = take (length a) rest" "config l = config lb"
        by simp_all
      from False failed rec Cons.prems have eq: "resp = r" "att = node # a" "lb' = l"
        by (auto simp: attemptNodeRequest_def Let_def)
      from False have "int i < MaxRetries (config lb)" by simp
      with ih show ?thesis unfolding eq by auto
    qed
  qed
qed

lemma http_attempts_all_fail:
  "\<forall>j < min (length ns) (nat (MaxRetries (config lb) - int i)).
      attempt_fails env (config lb) (i + j) (ns ! j) \<Longrightarrow>
   fst (http_attempts env i ns lb) = HttpError ''All beacon nodes unavailable'' 502
   \<and> fst (snd (http_attempts env i ns lb))
       = take (min (length ns) (nat (MaxRetries (config lb) - int i))) ns"
proof (induction ns arbitrary: i lb)
  case Nil
  then show ?case by (simp add: StatusBadGateway_def)
next
  case (Cons node rest)
  show ?case
  proof (cases "int i \<ge> MaxRetries (config lb)")
    case True
    then show ?thesis by (simp add: StatusBadGateway_def)
  next
    case False
    then have "0 < min (length (node # rest)) (nat (MaxRetries (config lb) - int i))" by simp
    with Cons.prems have f0: "attempt_fails env (config lb) i node" by fastforce
    let ?rec = "serve_into_recorder (upstream env i node)"
    let ?lb2 = "handleNodeError node (statusCode ?rec) (update_node node IncrementRequests lb)"
    have "\<forall>j < min (length rest) (nat (MaxRetries (config ?lb2) - int (Suc i))).
            attempt_fails env (config ?lb2) (Suc i + j) (rest ! j)"
    proof (intro allI impI)
      fix j assume "j < min (length rest) (nat (MaxRetries (config ?lb2) - int (Suc i)))"
      then have "Suc j < min (length (node # rest)) (nat (MaxRetries (config lb) - int i))"
        by simp linarith
      with Cons.prems have "attempt_fails env (config lb) (i + Suc j) ((node # rest) ! Suc j)"
        by blast
      then show "attempt_fails env (config ?lb2) (Suc i + j) (rest ! j)" by simp
    qed
    from Cons.IH [OF this]
    have ih: "fst (http_attempts env (Suc i) rest ?lb2)
                = HttpError ''All beacon nodes unavailable'' 502"
      "fst (snd (http_attempts env (Suc i) rest ?lb2))
         = take (min (length rest) (nat (MaxRetries (config lb) - int (Suc i)))) rest"
      by simp_all
    have m: "min (length (node # rest)) (nat (MaxRetries (config lb) - int i))
               = Suc (min (length rest) (nat (MaxRetries (config lb) - int (Suc i))))"
      using False by simp
    from f0 False ih show ?thesis unfolding m
      by (auto simp: attempt_fails_def attemptNodeRequest_def Let_def HTTPStatusSuccessMin_def
          HTTPStatusSuccessMax_def split: prod.splits)
  qed
qed

text \<open>
  C2. The nodes that \<^verbatim>\<open>handleHTTPRequest\<close> sends the request to are a prefix of the snapshot
  of the healthy set, of at most \<open>min (len snapshot) max_retries\<close> nodes. If each of these
  attempts fails, none being cut short by the deadline, then all of them are made and the
  answer is \<^verbatim>\<open>http.Error(w, "All beacon nodes unavailable", 502)\<close>; with an empty snapshot
  that is the answer and no attempt is made.
\<close>

theorem handleHTTPRequest_retries:
  "length (fst (snd (handleHTTPRequest env lb))) \<le> retry_budget (config lb) (GetHealthyNodes lb)
   \<and> fst (snd (handleHTTPRequest env lb))
       = take (length (fst (snd (handleHTTPRequest env lb)))) (GetHealthyNodes lb)
   \<and> ((\<forall>i < retry_budget (config lb) (GetHealthyNodes lb).
          attempt_fails env (config lb) i (GetHealthyNodes lb ! i))
        \<longrightarrow> fst (handleHTTPRequest env lb) = HttpError ''All beacon nodes unavailable'' 502
          \<and> fst (snd (handleHTTPRequest env lb))
              = take (retry_budget (config lb) (GetHealthyNodes lb)) (GetHealthyNodes lb))
   \<and> (GetHealthyNodes lb = []
        \<longrightarrow> handleHTTPRequest env lb = (HttpError ''All beacon nodes unavailable'' 502, [], lb))"
proof -
  obtain resp att lb' where run: "http_attempts env 0 (GetHealthyNodes lb) lb = (resp, att, lb')"
    by (cases "http_attempts env 0 (GetHealthyNodes lb) lb") auto
  from http_attempts_prefix [OF run]
  have "length att \<le> retry_budget (config lb) (GetHealthyNodes lb)"
    and "att = take (length att) (GetHealthyNodes lb)"
    by (simp_all add: retry_budget_def)
  moreover from http_attempts_all_fail [of "GetHealthyNodes lb" lb 0 env]
  have "(\<forall>i < retry_budget (config lb) (GetHealthyNodes lb).
           attempt_fails env (config lb) i (GetHealthyNodes lb ! i))
        \<longrightarrow> resp = HttpError ''All beacon nodes unavailable'' 502
          \<and> att = take (retry_budget (config lb) (GetHealthyNodes lb)) (GetHealthyNodes lb)"
    by (simp add: retry_budget_def run)
  ultimately show ?thesis
    by (auto simp: handleHTTPRequest_def run StatusBadGateway_def)
qed

lemmas http_defs = handleHTTPRequest_def GetHealthyNodes_def attemptNodeRequest_def
  handleSuccessResponse_def handleNodeError_def demote_def update_node_def serve_into_recorder_def
  emptyRecorder_def WriteHeader_def Write_def HTTPStatusSuccessMin_def HTTPStatusSuccessMax_def
  HTTPStatusServerErrorMin_def StatusBadGateway_def StatusGatewayTimeout_def

text \<open>With \<open>max_retries = 1\<close> and the failing primary first, the one attempt goes to the
  primary and the answer is the 502.\<close>

theorem handleHTTPRequest_retries_witness:
  "fst (handleHTTPRequest failing_primary_env (started 1 two_nodes))
     = HttpError ''All beacon nodes unavailable'' 502
   \<and> fst (snd (handleHTTPRequest failing_primary_env (started 1 two_nodes))) = [0]"
proof -
  have "retry_budget (config (started 1 two_nodes)) (GetHealthyNodes (started 1 two_nodes)) = 1"
    by (simp add: retry_budget_def started_two_nodes GetHealthyNodes_def example_config_def)
  moreover have "attempt_fails failing_primary_env (config (started 1 two_nodes)) 0
                   (GetHealthyNodes (started 1 two_nodes) ! 0)"
    by (simp add: attempt_fails_def started_two_nodes GetHealthyNodes_def example_config_def
        failing_primary_env_def serve_into_recorder_def emptyRecorder_def WriteHeader_def)
  moreover have "take 1 (GetHealthyNodes (started 1 two_nodes)) = [0]"
    by (simp add: started_two_nodes GetHealthyNodes_def)
  ultimately show ?thesis
    using handleHTTPRequest_retries [of failing_primary_env "started 1 two_nodes"] by simp
qed

subsection \<open>The primary-failure scenario\<close>

lemma started_failover_state: "started m two_nodes = failover_state m 0 0 [0, 1]"
  by (simp add: failover_state_def started_two_nodes)

lemma failing_primary_below_threshold:
  assumes "2 \<le> m" and "sint (k + 1) < 3"
  shows "handleHTTPRequest failing_primary_env (failover_state m k 0 [0, 1])
     = (Copied backup_response, [0, 1], failover_state m (k + 1) 0 [0, 1])"
  using assms
  by (simp add: failover_state_def http_defs failing_primary_env_def example_config_def
      backup_response_def node_defs Let_def)

lemma failing_primary_at_threshold:
  assumes "2 \<le> m" and "3 \<le> sint (k + 1)"
  shows "handleHTTPRequest failing_primary_env (failover_state m k 0 [0, 1])
     = (Copied backup_response, [0, 1], failover_state m (k + 1) 2 [1])"
  using assms
  by (simp add: failover_state_def http_defs failing_primary_env_def example_config_def
      backup_response_def node_defs Let_def)

text \<open>
  C3, as the code has it. Backends \<open>[p, b]\<close>, \<open>p\<close> answers 500 and \<open>b\<close> answers 200, the
  error threshold is 3 and \<open>max_retries\<close> is at least 2. Each of the three requests is
  sent to \<open>p\<close> and then, in the same request, to \<open>b\<close>, and the client receives \<open>b\<close>'s 200
  response each time. The consecutive errors of \<open>p\<close> are 1, 2 and 3 after the three
  requests; the third request demotes \<open>p\<close> (priority 2, healthy set \<open>[b]\<close>) before it
  falls through to \<open>b\<close>.
\<close>

theorem primary_failure_failover:
  assumes "2 \<le> m"
  shows "handleHTTPRequest failing_primary_env (started m two_nodes)
           = (Copied backup_response, [0, 1], failover_state m 1 0 [0, 1])
       \<and> handleHTTPRequest failing_primary_env (failover_state m 1 0 [0, 1])
           = (Copied backup_response, [0, 1], failover_state m 2 0 [0, 1])
       \<and> handleHTTPRequest failing_primary_env (failover_state m 2 0 [0, 1])
           = (Copied backup_response, [0, 1], failover_state m 3 2 [1])"
  using failing_primary_below_threshold [OF assms, of 0]
    failing_primary_below_threshold [OF assms, of 1]
    failing_primary_at_threshold [OF assms, of 2]
  by (simp add: started_failover_state)

theorem primary_failure_failover_witness:
  "handleHTTPRequest failing_primary_env (failover_state 10 2 0 [0, 1])
     = (Copied backup_response, [0, 1], failover_state 10 3 2 [1])
   \<and> Priority (nodes (failover_state 10 3 2 [1]) ! 0) = 2
   \<and> statusCode backup_response = 200"
  using primary_failure_failover [of 10]
  by (simp add: failover_state_def backup_response_def)

text \<open>C3 as stated fails: the first request is not answered with the 500 of \<open>p\<close>; the
  client receives the 200 of \<open>b\<close>.\<close>

theorem primary_failure_first_request_counterexample:
  "fst (handleHTTPRequest failing_primary_env (started 10 two_nodes)) \<noteq> Copied primary_response
   \<and> fst (handleHTTPRequest failing_primary_env (started 10 two_nodes)) = Copied backup_response
   \<and> serve_into_recorder (upstream failing_primary_env 0 0) = primary_response"
  by (simp add: started_two_nodes http_defs failing_primary_env_def example_config_def
      backup_response_def primary_response_def node_defs Let_def)

section \<open>Properties of the health-check scheduler\<close>

subsection \<open>Updates of single nodes\<close>

lemma nth_update_node:
  "nodes (update_node n f lb) ! m = (if m = n \<and> n < length (nodes lb) then f (nodes lb ! n) else nodes lb ! m)"
  by (cases "n < length (nodes lb)") (simp_all add: update_node_def nth_list_update not_less list_update_beyond)

lemma field_update_node:
  assumes "\<And>bn. X (f bn) = X bn"
  shows "X (nodes (update_node n f lb) ! m) = X (nodes lb ! m)"
  using assms by (simp add: nth_update_node)

lemma same_identity_refl [simp]: "same_identity lb lb"
  by (simp add: same_identity_def)

lemma same_identity_trans: "same_identity a b \<Longrightarrow> same_identity b c \<Longrightarrow> same_identity a c"
  by (simp add: same_identity_def)

lemma same_identity_update_node:
  assumes "\<And>bn. Name (f bn) = Name bn" "\<And>bn. OriginalPriority (f bn) = OriginalPriority bn"
  shows "same_identity lb (update_node n f lb)"
  using assms by (simp add: same_identity_def nth_update_node)

lemma collect_step_fst:
  "fst (collect_step h (lb, hs) n) = update_node n (if h n then (\<lambda>bn. ResetErrors (IncrementSuccess bn)) else ResetSuccesses) lb"
  "snd (collect_step h (lb, hs) n) = (if h n then hs @ [n] else hs)"
  by (simp_all add: collect_step_def)

lemma collect_snd: "snd (foldl (collect_step h) (lb, hs) rs) = hs @ filter h rs"
  by (induction rs arbitrary: lb hs) (simp_all add: collect_step_def)

lemma collect_keeps:
  "same_identity lb (fst (foldl (collect_step h) (lb, hs) rs))
   \<and> healthyNodes (fst (foldl (collect_step h) (lb, hs) rs)) = healthyNodes lb
   \<and> (\<forall>m. Priority (nodes (fst (foldl (collect_step h) (lb, hs) rs)) ! m) = Priority (nodes lb ! m))"
proof (induction rs arbitrary: lb hs)
  case Nil
  show ?case by simp
next
  case (Cons n rs)
  let ?f = "if h n then (\<lambda>bn. ResetErrors (IncrementSuccess bn)) else ResetSuccesses"
  let ?lb1 = "update_node n ?f lb"
  let ?hs1 = "if h n then hs @ [n] else hs"
  have step: "collect_step h (lb, hs) n = (?lb1, ?hs1)" by (simp add: collect_step_def)
  have a: "same_identity lb ?lb1"
    by (rule same_identity_update_node) (simp_all add: node_defs)
  have b: "\<And>m. Priority (nodes ?lb1 ! m) = Priority (nodes lb ! m)"
    by (rule field_update_node) (simp add: node_defs)
  from Cons.IH [of ?lb1 ?hs1] a b show ?case
    by (simp add: step same_identity_def del: collect_step_def)
qed

lemma collect_untouched:
  "n \<notin> set rs \<Longrightarrow> nodes (fst (foldl (collect_step h) (lb, hs) rs)) ! n = nodes lb ! n"
proof (induction rs arbitrary: lb hs)
  case Nil
  show ?case by simp
next
  case (Cons r rs)
  let ?f = "if h r then (\<lambda>bn. ResetErrors (IncrementSuccess bn)) else ResetSuccesses"
  have step: "collect_step h (lb, hs) r = (update_node r ?f lb, if h r then hs @ [r] else hs)" by (simp add: collect_step_def)
  from Cons.prems have "n \<noteq> r" "n \<notin> set rs" by auto
  with Cons.IH [of "update_node r ?f lb"] show ?case
    by (simp add: step nth_update_node)
qed

lemma collect_successes:
  assumes "distinct rs" "n \<in> set rs" "h n" "n < length (nodes lb)"
  shows "ConsecutiveSuccesses (nodes (fst (foldl (collect_step h) (lb, hs) rs)) ! n) = ConsecutiveSuccesses (nodes lb ! n) + 1"
  using assms
proof (induction rs arbitrary: lb hs)
  case Nil
  then show ?case by simp
next
  case (Cons r rs)
  let ?f = "if h r then (\<lambda>bn. ResetErrors (IncrementSuccess bn)) else ResetSuccesses"
  have step: "collect_step h (lb, hs) r = (update_node r ?f lb, if h r then hs @ [r] else hs)" by (simp add: collect_step_def)
  show ?case
  proof (cases "n = r")
    case True
    with Cons.prems have "n \<notin> set rs" by simp
    from collect_untouched [OF this] True Cons.prems(3,4) show ?thesis
      by (simp add: step nth_update_node node_defs)
  next
    case False
    with Cons.prems have "distinct rs" "n \<in> set rs" "n < length (nodes (update_node r ?f lb))" by (simp_all add: update_node_def)
    from Cons.IH [OF this(1,2) Cons.prems(3) this(3)] False show ?thesis
      by (simp add: step nth_update_node)
  qed
qed

lemma restore_step_nth:
  "nodes (restore_step lb n) ! k =
     (if k = n \<and> n < length (nodes lb) then (nodes lb ! n)\<lparr>Priority := OriginalPriority (nodes lb ! n)\<rparr> else nodes lb ! k)"
  by (simp add: restore_step_def nth_update_node node_defs)

lemma restore_step_simps [simp]:
  "length (nodes (restore_step lb n)) = length (nodes lb)"
  "config (restore_step lb n) = config lb"
  "healthyNodes (restore_step lb n) = healthyNodes lb"
  by (simp_all add: restore_step_def update_node_def)

lemma restore_simps [simp]:
  "length (nodes (foldl restore_step lb ns)) = length (nodes lb)"
  "config (foldl restore_step lb ns) = config lb"
  "healthyNodes (foldl restore_step lb ns) = healthyNodes lb"
  by (induction ns arbitrary: lb) simp_all

lemma restore_nth:
  "nodes (foldl restore_step lb ns) ! m =
     (if m \<in> set ns \<and> m < length (nodes lb) then (nodes lb ! m)\<lparr>Priority := OriginalPriority (nodes lb ! m)\<rparr> else nodes lb ! m)"
proof (induction ns arbitrary: lb)
  case Nil
  show ?case by simp
next
  case (Cons n ns)
  show ?case using Cons.IH [of "restore_step lb n"] by (auto simp: restore_step_nth)
qed

subsection \<open>Failback\<close>

lemma find_Some_member: "List.find P xs = Some x \<Longrightarrow> x \<in> set xs \<and> P x"
  by (induction xs) (auto split: if_splits)

lemma find_primary_Some:
  "find_primary lb = Some c \<Longrightarrow> c < length (nodes lb) \<and> Priority (nodes lb ! c) = 0"
  by (auto simp: find_primary_def find_Some_iff node_defs)

lemma find_primary_None:
  "find_primary lb = None \<longleftrightarrow> (\<forall>m < length (nodes lb). Priority (nodes lb ! m) \<noteq> 0)"
  by (auto simp: find_primary_def find_None_iff node_defs)

lemma find_primary_cong:
  assumes "length (nodes lb') = length (nodes lb)"
    and "\<And>m. Priority (nodes lb' ! m) = Priority (nodes lb ! m)"
  shows "find_primary lb' = find_primary lb"
  unfolding find_primary_def using assms by (intro find_cong) (simp_all add: node_defs)

lemma rebuild_nodes_primary:
  "find_primary lb \<noteq> None \<Longrightarrow> nodes (rebuild lb hb) = nodes lb"
  by (auto simp: rebuild_def Let_def)

lemma failback_identity: "same_identity lb (failback lb hb)"
  by (simp add: failback_def same_identity_def nth_update_node node_defs Let_def split: option.splits)

lemma failback_simps [simp]:
  "length (nodes (failback lb hb)) = length (nodes lb)"
  "config (failback lb hb) = config lb"
  "healthyNodes (failback lb hb) = healthyNodes lb"
  by (simp_all add: failback_def Let_def split: option.splits)

lemma failback_taken:
  assumes "find_original_primary lb hb = Some orig" and "find_primary lb = Some c"
    and "SuccessfulChecksForFailback (config lb) \<le> GetConsecutiveSuccesses (nodes lb ! orig)"
    and "Name (nodes lb ! c) \<noteq> Name (nodes lb ! orig)"
    and "c < length (nodes lb)" and "orig < length (nodes lb)"
  shows "Priority (nodes (failback lb hb) ! c) = OriginalPriority (nodes lb ! c)"
    and "Priority (nodes (failback lb hb) ! orig) = 0"
proof -
  from assms(4) have "c \<noteq> orig" by auto
  with assms show "Priority (nodes (failback lb hb) ! c) = OriginalPriority (nodes lb ! c)"
    and "Priority (nodes (failback lb hb) ! orig) = 0"
    by (simp_all add: failback_def Let_def nth_update_node SetPriority_def ResetErrors_def)
qed

lemma restore_notin: "m \<notin> set ns \<Longrightarrow> nodes (foldl restore_step lb ns) ! m = nodes lb ! m"
  by (simp add: restore_nth)

lemma restore_in:
  "m \<in> set ns \<Longrightarrow> m < length (nodes lb) \<Longrightarrow>
     Priority (nodes (foldl restore_step lb ns) ! m) = OriginalPriority (nodes lb ! m)"
  by (simp add: restore_nth)

lemma pass_unfold:
  assumes "filter (\<lambda>n. IsBackup (nodes lb ! n)) [0 ..< length (nodes lb)] \<noteq> []"
  shows "performHealthCheck um probe finish lb =
    (let results = arrival_order finish (filter (\<lambda>n. IsBackup (nodes lb ! n)) [0 ..< length (nodes lb)]);
         lb1 = fst (foldl (collect_step (\<lambda>n. fst (HealthCheck um (probe n)))) (lb, []) results);
         hb = filter (\<lambda>n. fst (HealthCheck um (probe n))) results
     in rebuild (foldl restore_step (failback lb1 hb) hb) hb)"
  using assms by (simp add: performHealthCheck_def Let_def collect_snd)

text \<open>
  C5. Backends with pairwise different names and original priorities. In a periodic pass let
  the original primary \<open>orig\<close> (original priority 0) be a backup, so that it is probed, let
  its probe be healthy, and let its consecutive successes, this one counted, reach
  \<^verbatim>\<open>successful_checks_for_failback\<close>. Then \<open>orig\<close> ends the pass with priority 0, and the
  backend that was the current primary when the pass began, if there was one, ends the pass
  with its own original priority.
\<close>

theorem failback_restores_original_primary:
  assumes names: "distinct (map Name (nodes lb))"
    and origs: "distinct (map OriginalPriority (nodes lb))"
    and orig: "orig < length (nodes lb)" "OriginalPriority (nodes lb ! orig) = 0"
    and backup: "IsBackup (nodes lb ! orig)"
    and healthy: "fst (HealthCheck um (probe orig))"
    and succ: "SuccessfulChecksForFailback (config lb) \<le> sint (ConsecutiveSuccesses (nodes lb ! orig) + 1)"
  shows "Priority (nodes (performHealthCheck um probe finish lb) ! orig) = 0
       \<and> (\<forall>c. find_primary lb = Some c \<longrightarrow>
             Priority (nodes (performHealthCheck um probe finish lb) ! c) = OriginalPriority (nodes lb ! c))"
proof -
  let ?h = "\<lambda>n. fst (HealthCheck um (probe n))"
  let ?backups = "filter (\<lambda>n. IsBackup (nodes lb ! n)) [0 ..< length (nodes lb)]"
  let ?results = "arrival_order finish ?backups"
  let ?lb1 = "fst (foldl (collect_step ?h) (lb, []) ?results)"
  let ?hb = "filter ?h ?results"
  let ?lb2 = "failback ?lb1 ?hb"
  let ?lb3 = "foldl restore_step ?lb2 ?hb"
  have in_backups: "orig \<in> set ?backups" using orig(1) backup by simp
  have nonempty: "?backups \<noteq> []"
  proof
    assume "?backups = []"
    with in_backups have "orig \<in> set []" by metis
    then show False by simp
  qed
  have pass: "performHealthCheck um probe finish lb = rebuild ?lb3 ?hb"
    using pass_unfold [OF nonempty] by (simp add: Let_def)
  have set_results: "set ?results = set ?backups" and dist_results: "distinct ?results"
    by (simp_all add: arrival_order_def)
  have in_hb: "orig \<in> set ?hb" using in_backups healthy set_results by simp
  have hb_backups: "\<And>n. n \<in> set ?hb \<Longrightarrow> n < length (nodes lb) \<and> IsBackup (nodes lb ! n)"
    using set_results by auto
  from collect_keeps [of lb ?h "[]" ?results]
  have id1: "same_identity lb ?lb1" and prio1: "\<And>m. Priority (nodes ?lb1 ! m) = Priority (nodes lb ! m)"
    by simp_all
  have len1: "length (nodes ?lb1) = length (nodes lb)" and cfg1: "config ?lb1 = config lb"
    and orig1: "\<And>m. OriginalPriority (nodes ?lb1 ! m) = OriginalPriority (nodes lb ! m)"
    and name1: "\<And>m. Name (nodes ?lb1 ! m) = Name (nodes lb ! m)"
    using id1 by (simp_all add: same_identity_def)
  have succ1: "ConsecutiveSuccesses (nodes ?lb1 ! orig) = ConsecutiveSuccesses (nodes lb ! orig) + 1"
    using in_backups set_results healthy orig(1)
    by (intro collect_successes [OF dist_results]) simp_all
  have fop: "find_original_primary ?lb1 ?hb = Some orig"
  proof (cases "find_original_primary ?lb1 ?hb")
    case None
    with in_hb orig(2) orig1 show ?thesis
      by (auto simp: find_original_primary_def find_None_iff)
  next
    case (Some x)
    then have "x \<in> set ?hb" "OriginalPriority (nodes lb ! x) = 0"
      using orig1 unfolding find_original_primary_def by (auto dest: find_Some_member)
    with hb_backups [of x] have "x < length (nodes lb)" "OriginalPriority (nodes lb ! x) = OriginalPriority (nodes lb ! orig)"
      using orig(2) by simp_all
    with origs orig(1) have "x = orig"
      by (metis length_map nth_eq_iff_index_eq nth_map)
    with Some show ?thesis by simp
  qed
  have fp1: "find_primary ?lb1 = find_primary lb"
    by (rule find_primary_cong [OF len1 prio1])
  have should: "SuccessfulChecksForFailback (config ?lb1) \<le> GetConsecutiveSuccesses (nodes ?lb1 ! orig)"
    using succ by (simp add: cfg1 succ1 GetConsecutiveSuccesses_def)
  have len2: "length (nodes ?lb2) = length (nodes lb)"
    by (simp add: len1)
  have lb2_orig: "OriginalPriority (nodes ?lb2 ! orig) = 0"
    using orig(2) orig1 failback_identity [of ?lb1 ?hb] by (simp add: same_identity_def)
  have lb2_c: "Priority (nodes ?lb2 ! c) = OriginalPriority (nodes lb ! c)" if c: "find_primary lb = Some c" for c
  proof -
    from find_primary_Some [OF c] have cl: "c < length (nodes lb)" and cp: "Priority (nodes lb ! c) = 0" by simp_all
    from cp backup have ne: "c \<noteq> orig" by (auto simp: node_defs)
    with names cl orig(1) have "Name (nodes lb ! c) \<noteq> Name (nodes lb ! orig)"
      by (metis length_map nth_eq_iff_index_eq nth_map)
    then have "Name (nodes ?lb1 ! c) \<noteq> Name (nodes ?lb1 ! orig)" by (simp add: name1)
    moreover have "find_primary ?lb1 = Some c" using c by (simp add: fp1)
    moreover have "c < length (nodes ?lb1)" "orig < length (nodes ?lb1)"
      using cl orig(1) by (simp_all add: len1)
    ultimately have "Priority (nodes ?lb2 ! c) = OriginalPriority (nodes ?lb1 ! c)"
      using fop should by (intro failback_taken(1))
    then show ?thesis by (simp add: orig1)
  qed
  have lb3_orig: "Priority (nodes ?lb3 ! orig) = 0"
    using restore_in [OF in_hb, of ?lb2] orig(1) lb2_orig by (simp add: len1)
  have lb3_c: "Priority (nodes ?lb3 ! c) = OriginalPriority (nodes lb ! c)" if c: "find_primary lb = Some c" for c
  proof -
    from find_primary_Some [OF c] have "Priority (nodes lb ! c) = 0" by simp
    with hb_backups [of c] have "c \<notin> set ?hb" by (auto simp: node_defs)
    from restore_notin [OF this, of ?lb2] lb2_c [OF c] show ?thesis by simp
  qed
  have "find_primary ?lb3 \<noteq> None"
    using lb3_orig orig(1) len2 by (auto simp: find_primary_None)
  then have "nodes (rebuild ?lb3 ?hb) = nodes ?lb3" by (rule rebuild_nodes_primary)
  with lb3_orig lb3_c show ?thesis by (simp add: pass)
qed

lemma find_primary_interim: "find_primary interim_state = Some 1"
  by (simp add: find_primary_def interim_state_def node_defs upt_rec [of 0] upt_rec [of "Suc 0"])

theorem failback_restores_original_primary_witness:
  "Priority (nodes (performHealthCheck example_unmarshal all_synced (\<lambda>n. n) interim_state) ! 0) = 0
   \<and> Priority (nodes (performHealthCheck example_unmarshal all_synced (\<lambda>n. n) interim_state) ! 1)
       = 1"
proof -
  have "fst (HealthCheck example_unmarshal (all_synced 0))"
    by (simp add: HealthCheck_def all_synced_def example_unmarshal_def synced_body_def StatusOK_def)
  moreover have "distinct (map Name (nodes interim_state))"
    "distinct (map OriginalPriority (nodes interim_state))"
    "0 < length (nodes interim_state)" "OriginalPriority (nodes interim_state ! 0) = 0"
    "IsBackup (nodes interim_state ! 0)"
    "SuccessfulChecksForFailback (config interim_state)
       \<le> sint (ConsecutiveSuccesses (nodes interim_state ! 0) + 1)"
    "OriginalPriority (nodes interim_state ! 1) = 1"
    by (simp_all add: interim_state_def example_config_def node_defs)
  ultimately show ?thesis
    using failback_restores_original_primary
      [of interim_state 0 example_unmarshal all_synced "\<lambda>n. n"] find_primary_interim
    by simp
qed

subsection \<open>Order of the healthy set\<close>

text \<open>The startup health check leaves the healthy set sorted by priority.\<close>

lemma StartupHealthCheck_sorted:
  "sorted (healthy_priorities (fst (StartupHealthCheck um probe finish lb)))"
  by (simp add: StartupHealthCheck_def healthy_priorities_def Let_def)

lemma started_three_nodes:
  "started m three_nodes =
     \<lparr>nodes =
        [\<lparr>Name = ''p'', URL = ''http://p:5052'', ConsecutiveErrors = 0, ConsecutiveSuccesses = 0,
          TotalFailures = 0, Requests = 0, Priority = 0, OriginalPriority = 0\<rparr>,
         \<lparr>Name = ''b1'', URL = ''http://b1:5052'', ConsecutiveErrors = 0, ConsecutiveSuccesses = 0,
          TotalFailures = 0, Requests = 0, Priority = 1, OriginalPriority = 1\<rparr>,
         \<lparr>Name = ''b2'', URL = ''http://b2:5052'', ConsecutiveErrors = 0, ConsecutiveSuccesses = 0,
          TotalFailures = 0, Requests = 0, Priority = 2, OriginalPriority = 2\<rparr>],
      config = example_config m, healthyNodes = [0, 1, 2]\<rparr>"
  by (simp add: started_def configured_def three_nodes_def StartupHealthCheck_def
      arrival_order_def all_synced_def CheckSyncStatus_def example_unmarshal_def synced_body_def
      StatusOK_def node_defs Let_def upt_rec [of 0] upt_rec [of "Suc 0"] upt_rec [of 2]
      upt_rec [of "Suc (Suc 0)"])

lemmas pass_defs = performHealthCheck_def arrival_order_def collect_step_def restore_step_def
  failback_def rebuild_def promote_def find_primary_def find_original_primary_def lowest_step_def
  update_node_def HealthCheck_def StatusOK_def

text \<open>
  C8 at a failing input: three backends, all healthy after startup, and a periodic pass in
  which both backups are healthy and the probe of \<open>b2\<close> finishes before the probe of \<open>b1\<close>.
  The rebuilt healthy set is \<open>p\<close>, \<open>b2\<close>, \<open>b1\<close>, with priorities 0, 2, 1: the backups are
  appended in the order in which their results arrive, and nothing sorts them.
\<close>

theorem performHealthCheck_unsorted:
  "healthyNodes (performHealthCheck example_unmarshal all_synced (\<lambda>n. 5 - n) (started 3 three_nodes))
     = [0, 2, 1]
   \<and> healthy_priorities
        (performHealthCheck example_unmarshal all_synced (\<lambda>n. 5 - n) (started 3 three_nodes))
     = [0, 2, 1]
   \<and> \<not> sorted (healthy_priorities
        (performHealthCheck example_unmarshal all_synced (\<lambda>n. 5 - n) (started 3 three_nodes)))"
  by (simp add: started_three_nodes pass_defs healthy_priorities_def all_synced_def
      example_unmarshal_def synced_body_def node_defs Let_def upt_rec [of 0] upt_rec [of "Suc 0"]
      upt_rec [of 2] upt_rec [of "Suc (Suc 0)"] example_config_def)

section \<open>The primary invariant\<close>

subsection \<open>Preservation by the steps\<close>

lemma well_formed_identity:
  "same_identity lb lb' \<Longrightarrow> well_formed lb \<Longrightarrow> well_formed lb'"
proof -
  assume si: "same_identity lb lb'" and wf: "well_formed lb"
  from si have len: "length (nodes lb') = length (nodes lb)"
    and nm: "\<And>m. Name (nodes lb' ! m) = Name (nodes lb ! m)"
    and og: "\<And>m. OriginalPriority (nodes lb' ! m) = OriginalPriority (nodes lb ! m)"
    by (simp_all add: same_identity_def)
  have "map Name (nodes lb') = map Name (nodes lb)"
    by (rule nth_equalityI) (simp_all add: len nm)
  with wf og len show ?thesis by (simp add: well_formed_def)
qed

lemma at_most_one_filter:
  assumes "distinct xs" and "\<forall>a \<in> set xs. \<forall>b \<in> set xs. P a \<and> P b \<longrightarrow> a = b"
  shows "length (filter P xs) \<le> 1"
proof (rule ccontr)
  define ys where "ys = filter P xs"
  assume "\<not> length (filter P xs) \<le> 1"
  then have "1 < length ys" unfolding ys_def by linarith
  then have two: "0 < length ys" "1 < length ys" by linarith+
  have d: "distinct ys" using assms(1) by (simp add: ys_def)
  from two have "ys ! 0 \<in> set ys" "ys ! 1 \<in> set ys" by (simp_all only: nth_mem)
  then have "ys ! 0 \<in> set xs" "ys ! 1 \<in> set xs" "P (ys ! 0)" "P (ys ! 1)"
    by (simp_all add: ys_def)
  with assms(2) have "ys ! 0 = ys ! 1" by blast
  with d two show False by (simp add: nth_eq_iff_index_eq)
qed

lemma invariant_primaries:
  "healthy_invariant lb \<Longrightarrow> length (primaries_in_healthy lb) \<le> 1"
  unfolding primaries_in_healthy_def healthy_invariant_def
  by (intro at_most_one_filter) (auto simp: node_defs)

lemma invariant_update_node:
  assumes "healthy_invariant lb"
    and "\<And>bn. Name (f bn) = Name bn" "\<And>bn. OriginalPriority (f bn) = OriginalPriority bn"
    and "\<And>bn. Priority (f bn) = Priority bn"
  shows "healthy_invariant (update_node n f lb)"
proof -
  have si: "same_identity lb (update_node n f lb)"
    by (rule same_identity_update_node) (simp_all add: assms)
  have pr: "\<And>m. Priority (nodes (update_node n f lb) ! m) = Priority (nodes lb ! m)"
    by (rule field_update_node) (simp add: assms)
  have og: "\<And>m. OriginalPriority (nodes (update_node n f lb) ! m) = OriginalPriority (nodes lb ! m)"
    by (rule field_update_node) (simp add: assms)
  from assms(1) well_formed_identity [OF si] show ?thesis
    by (simp add: healthy_invariant_def pr og)
qed

lemma invariant_demote:
  assumes inv: "healthy_invariant lb" and n: "node < length (nodes lb)"
  shows "healthy_invariant (demote node lb)"
proof -
  let ?lb' = "demote node lb"
  have si: "same_identity lb ?lb'"
    by (simp add: same_identity_def demote_def Let_def nth_update_node node_defs)
  from inv have names: "distinct (map Name (nodes lb))" and valid: "\<forall>h \<in> set (healthyNodes lb). h < length (nodes lb)"
    by (simp_all add: healthy_invariant_def well_formed_def)
  have hn: "healthyNodes ?lb' = filter (\<lambda>h. Name (nodes lb ! h) \<noteq> Name (nodes lb ! node)) (healthyNodes lb)"
    using demote_effect(4) [OF n] .
  have mem: "h \<in> set (healthyNodes ?lb') \<Longrightarrow> h \<in> set (healthyNodes lb) \<and> h \<noteq> node" for h
    unfolding hn by auto
  have same: "h \<noteq> node \<Longrightarrow> nodes ?lb' ! h = nodes lb ! h" for h
    using demote_effect(3) [OF n] by simp
  have "distinct (healthyNodes ?lb')" using inv unfolding hn by (simp add: healthy_invariant_def)
  moreover have "\<forall>h \<in> set (healthyNodes ?lb'). h < length (nodes ?lb')"
    using mem valid by auto
  moreover have "\<forall>h \<in> set (healthyNodes ?lb'). OriginalPriority (nodes ?lb' ! h) = 0 \<longrightarrow> Priority (nodes ?lb' ! h) = 0"
    using mem same inv by (auto simp: healthy_invariant_def)
  moreover have "\<forall>a \<in> set (healthyNodes ?lb'). \<forall>b \<in> set (healthyNodes ?lb').
           Priority (nodes ?lb' ! a) = 0 \<and> Priority (nodes ?lb' ! b) = 0 \<longrightarrow> a = b"
    using mem same inv by (auto simp: healthy_invariant_def)
  moreover have "well_formed ?lb'" using inv well_formed_identity [OF si] by (simp add: healthy_invariant_def)
  ultimately show ?thesis by (simp add: healthy_invariant_def)
qed

lemma invariant_handleNodeError:
  assumes "healthy_invariant lb" and "node < length (nodes lb)"
  shows "healthy_invariant (handleNodeError node code lb)"
proof -
  have "healthy_invariant (update_node node IncrementError lb)"
    using assms(1) by (rule invariant_update_node) (simp_all add: node_defs)
  moreover from this have "healthy_invariant (demote node (update_node node IncrementError lb))"
    using assms(2) by (intro invariant_demote) simp_all
  ultimately show ?thesis using assms(1) by (simp add: handleNodeError_def Let_def)
qed

lemma invariant_dial_failed:
  assumes "healthy_invariant lb" and "node < length (nodes lb)"
  shows "healthy_invariant (dial_failed node lb)"
proof -
  have "healthy_invariant (update_node node IncrementError lb)"
    using assms(1) by (rule invariant_update_node) (simp_all add: node_defs)
  moreover from this have "healthy_invariant (demote node (update_node node IncrementError lb))"
    using assms(2) by (intro invariant_demote) simp_all
  ultimately show ?thesis by (simp add: dial_failed_def Let_def)
qed

lemma lowest_member:
  "snd (foldl (lowest_step lb) acc ns) = Some n \<Longrightarrow> n \<in> set ns \<or> snd acc = Some n"
proof (induction ns arbitrary: acc)
  case Nil
  then show ?case by simp
next
  case (Cons a ns)
  from Cons.IH [OF Cons.prems [simplified]] show ?case
    by (cases acc) (auto simp: lowest_step_def split: if_splits)
qed

lemma promote_cases:
  "promote lb hb = lb
   \<or> (\<exists>n \<in> set hb. promote lb hb = update_node n ResetErrors (update_node n (SetPriority 0) lb))"
proof (cases "find_original_primary lb hb")
  case None
  show ?thesis
  proof (cases "snd (foldl (lowest_step lb) (maxInt, None) hb)")
    case inner: None
    with None show ?thesis by (simp add: promote_def)
  next
    case (Some n)
    from lowest_member [OF this] have "n \<in> set hb" by simp
    with None Some show ?thesis by (auto simp: promote_def)
  qed
next
  case (Some n)
  then have "n \<in> set hb" unfolding find_original_primary_def by (auto dest: find_Some_member)
  with Some show ?thesis by (auto simp: promote_def)
qed

lemma restore_identity: "same_identity lb (foldl restore_step lb ns)"
  by (simp add: same_identity_def restore_nth)

lemma find_primary_least:
  "find_primary lb = Some c \<Longrightarrow> \<forall>j < c. Priority (nodes lb ! j) \<noteq> 0"
  by (auto simp: find_primary_def find_Some_iff node_defs)

lemma healthy_name_member:
  assumes "distinct (map Name (nodes lb))" and "\<forall>h \<in> set hs. h < length (nodes lb)"
    and "c < length (nodes lb)"
    and "list_ex (\<lambda>h. Name (nodes lb ! h) = Name (nodes lb ! c)) hs"
  shows "c \<in> set hs"
proof -
  from assms(4) obtain h where h: "h \<in> set hs" "Name (nodes lb ! h) = Name (nodes lb ! c)"
    by (auto simp: list_ex_iff)
  with assms(2) have "h < length (nodes lb)" by simp
  with assms(1,3) h(2) have "h = c" by (metis length_map nth_eq_iff_index_eq nth_map)
  with h(1) show ?thesis by simp
qed

lemma invariant_rebuild:
  assumes wf: "well_formed lb3"
    and old: "distinct (healthyNodes lb3)" "\<forall>h \<in> set (healthyNodes lb3). h < length (nodes lb3)"
    and fresh: "\<forall>h \<in> set (healthyNodes lb3) \<inter> set hb. OriginalPriority (nodes lb3 ! h) \<noteq> 0"
    and hb: "distinct hb" "\<forall>n \<in> set hb. n < length (nodes lb3)"
    and restored: "\<forall>n \<in> set hb. Priority (nodes lb3 ! n) = OriginalPriority (nodes lb3 ! n)"
  shows "healthy_invariant (rebuild lb3 hb)"
proof (cases "find_primary lb3")
  case None
  then have none: "\<forall>m < length (nodes lb3). Priority (nodes lb3 ! m) \<noteq> 0"
    by (simp add: find_primary_None)
  define lb4 where "lb4 = (if length hb > 0 then promote lb3 hb else lb3)"
  have final: "rebuild lb3 hb = lb4\<lparr>healthyNodes := hb\<rparr>"
    using None by (simp add: rebuild_def lb4_def)
  have cases4: "lb4 = lb3 \<or> (\<exists>n \<in> set hb. lb4 = update_node n ResetErrors (update_node n (SetPriority 0) lb3))"
    using promote_cases [of lb3 hb] by (auto simp: lb4_def)
  have si: "same_identity lb3 lb4"
    using cases4 by (auto simp: same_identity_def nth_update_node node_defs)
  have prim: "\<And>a b. a \<in> set hb \<Longrightarrow> b \<in> set hb \<Longrightarrow> Priority (nodes lb4 ! a) = 0 \<Longrightarrow> Priority (nodes lb4 ! b) = 0 \<Longrightarrow> a = b"
    using cases4 none hb(2) by (auto simp: nth_update_node node_defs split: if_splits)
  have J: "\<And>h. h \<in> set hb \<Longrightarrow> OriginalPriority (nodes lb4 ! h) = 0 \<Longrightarrow> Priority (nodes lb4 ! h) = 0"
  proof -
    fix h assume h: "h \<in> set hb" "OriginalPriority (nodes lb4 ! h) = 0"
    with si have "OriginalPriority (nodes lb3 ! h) = 0" by (simp add: same_identity_def)
    with restored h(1) have "Priority (nodes lb3 ! h) = 0" by simp
    with none hb(2) h(1) show "Priority (nodes lb4 ! h) = 0" by auto
  qed
  have len: "length (nodes lb4) = length (nodes lb3)" using si by (simp add: same_identity_def)
  have "well_formed (lb4\<lparr>healthyNodes := hb\<rparr>)"
    using well_formed_identity [OF si wf] by (simp add: well_formed_def)
  then show ?thesis unfolding final healthy_invariant_def
    using hb prim J len by auto
next
  case (Some c)
  from find_primary_Some [OF Some] have c: "c < length (nodes lb3)" "Priority (nodes lb3 ! c) = 0"
    by simp_all
  define U where "U = (if list_ex (\<lambda>h. Name (nodes lb3 ! h) = Name (nodes lb3 ! c)) (healthyNodes lb3) then [c] else [])"
  have final: "rebuild lb3 hb = lb3\<lparr>healthyNodes := U @ hb\<rparr>"
    using Some by (simp add: rebuild_def U_def)
  have key: "m = c" if "m \<in> set hb" "Priority (nodes lb3 ! m) = 0" for m
  proof -
    from that restored have "OriginalPriority (nodes lb3 ! m) = 0" by simp
    with wf hb(2) that(1) have "m = 0" by (simp add: well_formed_def)
    with that(2) find_primary_least [OF Some] have "\<not> 0 < c" by auto
    with \<open>m = 0\<close> show ?thesis by simp
  qed
  have U_old: "c \<in> set (healthyNodes lb3)" if "U = [c]"
  proof -
    from that have "list_ex (\<lambda>h. Name (nodes lb3 ! h) = Name (nodes lb3 ! c)) (healthyNodes lb3)"
      by (auto simp: U_def split: if_splits)
    with wf old(2) c(1) show ?thesis
      by (intro healthy_name_member [of lb3]) (simp_all add: well_formed_def)
  qed
  have U_notin: "c \<notin> set hb" if "U = [c]"
  proof
    assume in_hb: "c \<in> set hb"
    with restored c(2) have "OriginalPriority (nodes lb3 ! c) = 0" by simp
    with fresh U_old [OF that] in_hb show False by auto
  qed
  have U_cases: "U = [] \<or> U = [c]" by (simp add: U_def)
  have d: "distinct (U @ hb)" using U_cases U_notin hb(1) by auto
  have v: "\<forall>h \<in> set (U @ hb). h < length (nodes lb3)" using U_cases c(1) hb(2) by auto
  have J: "\<forall>h \<in> set (U @ hb). OriginalPriority (nodes lb3 ! h) = 0 \<longrightarrow> Priority (nodes lb3 ! h) = 0"
    using U_cases c(2) restored by auto
  have one: "\<forall>a \<in> set (U @ hb). \<forall>b \<in> set (U @ hb).
           Priority (nodes lb3 ! a) = 0 \<and> Priority (nodes lb3 ! b) = 0 \<longrightarrow> a = b"
    using U_cases key by auto
  have "well_formed (lb3\<lparr>healthyNodes := U @ hb\<rparr>)" using wf by (simp add: well_formed_def)
  with d v J one show ?thesis unfolding final healthy_invariant_def by simp
qed

lemma invariant_performHealthCheck:
  assumes inv: "healthy_invariant lb"
  shows "healthy_invariant (performHealthCheck um probe finish lb)"
proof (cases "filter (\<lambda>n. IsBackup (nodes lb ! n)) [0 ..< length (nodes lb)] = []")
  case True
  with inv show ?thesis by (simp add: performHealthCheck_def)
next
  case False
  define h where "h = (\<lambda>n. fst (HealthCheck um (probe n)))"
  define backups where "backups = filter (\<lambda>n. IsBackup (nodes lb ! n)) [0 ..< length (nodes lb)]"
  define results where "results = arrival_order finish backups"
  define lb1 where "lb1 = fst (foldl (collect_step h) (lb, []) results)"
  define hb where "hb = filter h results"
  define lb2 where "lb2 = failback lb1 hb"
  define lb3 where "lb3 = foldl restore_step lb2 hb"
  have pass: "performHealthCheck um probe finish lb = rebuild lb3 hb"
    using pass_unfold [OF False, of um probe finish]
    by (simp add: Let_def h_def backups_def results_def lb1_def hb_def lb2_def lb3_def)
  have set_results: "set results = set backups" and dist_results: "distinct results"
    by (simp_all add: arrival_order_def results_def backups_def)
  have hb_sub: "set hb \<subseteq> set backups" using set_results by (auto simp: hb_def)
  have hb_backups: "n < length (nodes lb) \<and> 0 < Priority (nodes lb ! n)" if "n \<in> set hb" for n
  proof -
    from that hb_sub have "n \<in> set backups" by blast
    then show ?thesis by (simp add: backups_def node_defs)
  qed
  from collect_keeps [of lb h "[]" results]
  have id1: "same_identity lb lb1" and h1: "healthyNodes lb1 = healthyNodes lb"
    by (simp_all add: lb1_def)
  have id2: "same_identity lb1 lb2" unfolding lb2_def by (rule failback_identity)
  have id3': "same_identity lb2 lb3" unfolding lb3_def by (rule restore_identity)
  have id3: "same_identity lb lb3"
    by (rule same_identity_trans [OF same_identity_trans [OF id1 id2] id3'])
  then have len3: "length (nodes lb3) = length (nodes lb)"
    and orig3: "\<And>m. OriginalPriority (nodes lb3 ! m) = OriginalPriority (nodes lb ! m)"
    by (simp_all add: same_identity_def)
  have len2: "length (nodes lb2) = length (nodes lb)"
    using same_identity_trans [OF id1 id2] by (simp add: same_identity_def)
  have h3: "healthyNodes lb3 = healthyNodes lb" by (simp add: h1 lb3_def lb2_def)
  have restored: "\<forall>n \<in> set hb. Priority (nodes lb3 ! n) = OriginalPriority (nodes lb3 ! n)"
  proof
    fix n assume n: "n \<in> set hb"
    with hb_backups have "n < length (nodes lb2)" by (simp add: len2)
    from restore_in [OF n this] have "Priority (nodes lb3 ! n) = OriginalPriority (nodes lb2 ! n)"
      by (simp add: lb3_def)
    also have "\<dots> = OriginalPriority (nodes lb3 ! n)"
      using id3' by (simp add: same_identity_def)
    finally show "Priority (nodes lb3 ! n) = OriginalPriority (nodes lb3 ! n)" .
  qed
  have fresh: "\<forall>x \<in> set (healthyNodes lb3) \<inter> set hb. OriginalPriority (nodes lb3 ! x) \<noteq> 0"
  proof
    fix x assume "x \<in> set (healthyNodes lb3) \<inter> set hb"
    then have a: "x \<in> set (healthyNodes lb)" and b: "x \<in> set hb" by (simp_all add: h3)
    from hb_backups [OF b] have "0 < Priority (nodes lb ! x)" by simp
    moreover from inv a have "OriginalPriority (nodes lb ! x) = 0 \<longrightarrow> Priority (nodes lb ! x) = 0"
      unfolding healthy_invariant_def by blast
    ultimately have "OriginalPriority (nodes lb ! x) \<noteq> 0" by auto
    then show "OriginalPriority (nodes lb3 ! x) \<noteq> 0" by (simp add: orig3)
  qed
  from inv have wf: "well_formed lb" and d: "distinct (healthyNodes lb)"
    and v: "\<forall>x \<in> set (healthyNodes lb). x < length (nodes lb)"
    unfolding healthy_invariant_def by blast+
  have "healthy_invariant (rebuild lb3 hb)"
  proof (rule invariant_rebuild)
    show "well_formed lb3" using wf id3 by (rule well_formed_identity [rotated])
    show "distinct (healthyNodes lb3)" using d by (simp add: h3)
    show "\<forall>x \<in> set (healthyNodes lb3). x < length (nodes lb3)" using v by (simp add: h3 len3)
    show "\<forall>x \<in> set (healthyNodes lb3) \<inter> set hb. OriginalPriority (nodes lb3 ! x) \<noteq> 0" by (rule fresh)
    show "distinct hb" using dist_results by (simp add: hb_def)
    show "\<forall>n \<in> set hb. n < length (nodes lb3)" using hb_backups by (simp add: len3)
    show "\<forall>n \<in> set hb. Priority (nodes lb3 ! n) = OriginalPriority (nodes lb3 ! n)" by (rule restored)
  qed
  then show ?thesis by (simp only: pass)
qed

lemma invariant_http_attempts:
  assumes "healthy_invariant lb" and "\<forall>n \<in> set ns. n < length (nodes lb)"
  shows "healthy_invariant (snd (snd (http_attempts env i ns lb)))"
  using assms
proof (induction ns arbitrary: i lb)
  case Nil
  then show ?case by simp
next
  case (Cons node rest)
  let ?rec = "serve_into_recorder (upstream env i node)"
  let ?lb1 = "update_node node IncrementRequests lb"
  let ?lb2 = "handleNodeError node (statusCode ?rec) ?lb1"
  have i1: "healthy_invariant ?lb1"
    using Cons.prems(1) by (rule invariant_update_node) (simp_all add: node_defs)
  have i1r: "healthy_invariant (update_node node ResetErrors ?lb1)"
    using i1 by (rule invariant_update_node) (simp_all add: node_defs)
  have i2: "healthy_invariant ?lb2"
    using i1 Cons.prems(2) by (intro invariant_handleNodeError) simp_all
  have "\<forall>n \<in> set rest. n < length (nodes ?lb2)" using Cons.prems(2) by simp
  from Cons.IH [OF i2 this, of "Suc i"]
  have rest: "healthy_invariant (snd (snd (http_attempts env (Suc i) rest ?lb2)))" .
  obtain r a l where rec: "http_attempts env (Suc i) rest ?lb2 = (r, a, l)"
    by (cases "http_attempts env (Suc i) rest ?lb2") auto
  from rest have "healthy_invariant l" by (simp add: rec)
  with Cons.prems(1) i1r show ?case
    by (simp add: attemptNodeRequest_def handleSuccessResponse_def Let_def rec)
qed

lemma invariant_connect:
  assumes "healthy_invariant lb" and "\<forall>n \<in> set ns. n < length (nodes lb)"
  shows "healthy_invariant (snd (connectToUpstreamWebSocket env ns lb))"
  using assms
proof (induction ns arbitrary: lb)
  case Nil
  then show ?case by simp
next
  case (Cons node rest)
  have i2: "healthy_invariant (dial_failed node lb)"
    using Cons.prems by (intro invariant_dial_failed) simp_all
  have "\<forall>n \<in> set rest. n < length (nodes (dial_failed node lb))" using Cons.prems(2) by simp
  from Cons.IH [OF i2 this] Cons.prems(1) show ?case by simp
qed

lemma invariant_ServeHTTP:
  assumes "healthy_invariant lb"
  shows "healthy_invariant (snd (ServeHTTP valid env r lb))"
proof -
  from assms have valid_healthy: "\<forall>n \<in> set (GetHealthyNodes lb). n < length (nodes lb)"
    by (simp add: healthy_invariant_def GetHealthyNodes_def)
  have http: "healthy_invariant (snd (snd (handleHTTPRequest env lb)))"
    unfolding handleHTTPRequest_def using assms valid_healthy by (rule invariant_http_attempts)
  have conn: "healthy_invariant (snd (connectToUpstreamWebSocket env (GetHealthyNodes lb) lb))"
    using assms valid_healthy by (rule invariant_connect)
  have up: "healthy_invariant (update_node n IncrementRequests (snd (connectToUpstreamWebSocket env (GetHealthyNodes lb) lb)))" for n
    using conn by (rule invariant_update_node) (simp_all add: node_defs)
  obtain sel lb1 where c: "connectToUpstreamWebSocket env (GetHealthyNodes lb) lb = (sel, lb1)"
    by (cases "connectToUpstreamWebSocket env (GetHealthyNodes lb) lb") auto
  have ws: "healthy_invariant (snd (handleWebSocket valid env r lb))"
    using assms conn up by (cases sel) (simp_all add: handleWebSocket_def Let_def c)
  obtain resp att lb2 where h: "handleHTTPRequest env lb = (resp, att, lb2)"
    by (cases "handleHTTPRequest env lb") auto
  show ?thesis using assms http ws
    by (simp add: ServeHTTP_def h)
qed

subsection \<open>Reachable states\<close>

lemma New_nodes_names:
  "map Name (New_nodes ok i xs) = map fst (filter (\<lambda>nc. ok (snd nc)) xs)"
  by (induction ok i xs rule: New_nodes.induct) (simp_all add: NewBeaconNode_def)

lemma New_nodes_priorities:
  "bn \<in> set (New_nodes ok i xs) \<Longrightarrow> Priority bn = OriginalPriority bn \<and> int i \<le> OriginalPriority bn"
  by (induction ok i xs rule: New_nodes.induct) (auto split: if_splits)

lemma New_nodes_first:
  "m < length (New_nodes ok i xs) \<Longrightarrow> OriginalPriority (New_nodes ok i xs ! m) = int i \<Longrightarrow> m = 0"
proof (induction ok i xs arbitrary: m rule: New_nodes.induct)
  case (1 ok i)
  then show ?case by simp
next
  case (2 ok i name url rest)
  show ?case
  proof (cases "ok url")
    case True
    show ?thesis
    proof (cases m)
      case 0
      then show ?thesis by simp
    next
      case (Suc k)
      with True "2.prems" have "k < length (New_nodes ok (Suc i) rest)"
        and "OriginalPriority (New_nodes ok (Suc i) rest ! k) = int i" by simp_all
      with New_nodes_priorities [of "New_nodes ok (Suc i) rest ! k" ok "Suc i" rest]
      show ?thesis by (simp add: nth_mem)
    qed
  next
    case False
    with "2.prems" have m: "m < length (New_nodes ok (Suc i) rest)"
      and "OriginalPriority (New_nodes ok (Suc i) rest ! m) = int i" by simp_all
    with New_nodes_priorities [of "New_nodes ok (Suc i) rest ! m" ok "Suc i" rest]
    show ?thesis by (simp add: nth_mem)
  qed
qed

lemma invariant_start:
  assumes names: "distinct (map fst allNodes)"
    and new: "New parse_ok metrics_ok cfg allNodes = Inr lb0"
    and startup: "StartupHealthCheck um probe finish lb0 = (lb, None)"
  shows "healthy_invariant lb"
proof -
  define ns where "ns = New_nodes parse_ok 0 allNodes"
  from new have lb0: "lb0 = \<lparr>nodes = ns, config = cfg, healthyNodes = []\<rparr>"
    by (auto simp: New_def Let_def ns_def split: if_splits)
  define hs where "hs = sort_key (\<lambda>n. GetPriority (nodes lb0 ! n))
      (filter (\<lambda>n. fst (CheckSyncStatus um (probe n))) (arrival_order finish [0 ..< length (nodes lb0)]))"
  from startup have lb: "lb = lb0\<lparr>healthyNodes := hs\<rparr>"
    by (auto simp: StartupHealthCheck_def Let_def hs_def split: if_splits)
  have nodes_lb: "nodes lb = ns" by (simp add: lb lb0)
  have "distinct (map Name ns)"
    unfolding ns_def New_nodes_names using names by (rule distinct_map_filter)
  moreover have first: "\<forall>m < length ns. OriginalPriority (ns ! m) = 0 \<longrightarrow> m = 0"
    using New_nodes_first [of _ parse_ok 0 allNodes] by (simp add: ns_def)
  ultimately have wf: "well_formed lb" by (simp add: well_formed_def nodes_lb)
  have prio: "\<forall>m < length ns. Priority (ns ! m) = OriginalPriority (ns ! m)"
    using New_nodes_priorities [of _ parse_ok 0 allNodes] by (simp add: ns_def)
  have d: "distinct hs" by (simp add: hs_def arrival_order_def)
  have v: "\<forall>x \<in> set hs. x < length ns" by (auto simp: hs_def arrival_order_def lb0)
  have zero: "x = 0" if "x \<in> set hs" "Priority (ns ! x) = 0" for x
    using that v prio first by auto
  have one: "\<forall>a \<in> set hs. \<forall>b \<in> set hs. Priority (ns ! a) = 0 \<and> Priority (ns ! b) = 0 \<longrightarrow> a = b"
    using zero by blast
  have J: "\<forall>x \<in> set hs. OriginalPriority (ns ! x) = 0 \<longrightarrow> Priority (ns ! x) = 0"
    using v prio by auto
  from wf d v J one show ?thesis
    by (simp add: healthy_invariant_def lb lb0)
qed

lemma reachable_invariant: "reachable lb \<Longrightarrow> healthy_invariant lb"
proof (induction rule: reachable.induct)
  case (start allNodes parse_ok metrics_ok cfg lb0 um probe finish lb)
  then show ?case by (rule invariant_start)
next
  case (request lb valid env r resp lb')
  from invariant_ServeHTTP [OF request.IH, of valid env r] request.hyps(2) show ?case by simp
next
  case (node_error lb node code)
  then show ?case by (intro invariant_handleNodeError)
next
  case (dial_error lb node)
  then show ?case by (intro invariant_dial_failed)
next
  case (periodic lb um probe finish)
  then show ?case by (intro invariant_performHealthCheck)
qed

text \<open>
  C1, as the code has it. At every observable moment after a successful startup health
  check at most one entry of the healthy set has priority 0. There may be none while the
  healthy set is not empty: on-request demotion removes the primary and promotes nothing.
\<close>

theorem at_most_one_primary:
  assumes "reachable lb"
  shows "length (primaries_in_healthy lb) \<le> 1"
  using assms by (intro invariant_primaries reachable_invariant)

lemma reachable_started: "reachable (started m two_nodes)"
proof (rule reachable.start)
  show "distinct (map fst two_nodes)" by (simp add: two_nodes_def)
  show "New (\<lambda>url. True) True (example_config m) two_nodes = Inr (configured m two_nodes)"
    by (simp add: New_def configured_def two_nodes_def Let_def)
  show "StartupHealthCheck example_unmarshal all_synced (\<lambda>n. n) (configured m two_nodes) = (started m two_nodes, None)"
    by (simp add: started_def StartupHealthCheck_def Let_def configured_def two_nodes_def arrival_order_def
        all_synced_def CheckSyncStatus_def example_unmarshal_def synced_body_def StatusOK_def)
qed

lemma serve_http_request:
  "ServeHTTP example_valid env http_request lb = (fst (handleHTTPRequest env lb), snd (snd (handleHTTPRequest env lb)))"
  by (simp add: ServeHTTP_def example_valid_def http_request_def split: prod.splits)

lemma reachable_demoted: "reachable (failover_state 10 3 2 [1])"
proof -
  have m: "(2::int) \<le> 10" by simp
  have "reachable (failover_state 10 1 0 [0, 1])"
    using reachable.request [OF reachable_started [of 10],
        of example_valid failing_primary_env http_request]
      failing_primary_below_threshold [OF m, of 0]
    by (simp add: serve_http_request started_failover_state)
  then have "reachable (failover_state 10 2 0 [0, 1])"
    using reachable.request [of "failover_state 10 1 0 [0, 1]"
        example_valid failing_primary_env http_request]
      failing_primary_below_threshold [OF m, of 1]
    by (simp add: serve_http_request)
  then show "reachable (failover_state 10 3 2 [1])"
    using reachable.request [of "failover_state 10 2 0 [0, 1]"
        example_valid failing_primary_env http_request]
      failing_primary_at_threshold [OF m, of 2]
    by (simp add: serve_http_request)
qed

theorem at_most_one_primary_witness:
  "reachable (started 10 two_nodes) \<and> length (primaries_in_healthy (started 10 two_nodes)) \<le> 1"
  using at_most_one_primary [OF reachable_started [of 10]] reachable_started [of 10] by simp

text \<open>C1 as stated fails: after the third failing request of the primary-failure scenario
  the healthy set is \<open>[b]\<close> and \<open>b\<close> has priority 1, so the healthy set is not empty and
  holds no primary.\<close>

theorem no_primary_after_demotion_counterexample:
  "reachable (failover_state 10 3 2 [1])
   \<and> \<not> claimed_primary_invariant (failover_state 10 3 2 [1])"
  using reachable_demoted
  by (simp add: claimed_primary_invariant_def primaries_in_healthy_def failover_state_def node_defs)

end
